theory Spec2Isabelle
  imports Complex_Main "HOL-Library.Sublist"
begin

section \<open>Numbers\<close>

text \<open>
  The C and C++ types \<^verbatim>\<open>double\<close> and \<^verbatim>\<open>float\<close> are modelled by \<^typ>\<open>real\<close>:
  every arithmetic operation and every call of the C mathematics library is its exact
  real counterpart (\<^verbatim>\<open>sqrt\<close>, \<^verbatim>\<open>sin\<close>, \<^verbatim>\<open>cos\<close>, \<^verbatim>\<open>asin\<close> as \<^const>\<open>arcsin\<close>,
  \<^verbatim>\<open>log10\<close> as \<^term>\<open>log 10\<close>, \<^verbatim>\<open>pow(10.0, x)\<close> as \<^term>\<open>10 powr x\<close>, \<^verbatim>\<open>M_PI\<close> as
  \<^const>\<open>pi\<close>). Rounding, the narrowing of a \<^verbatim>\<open>double\<close> argument to a \<^verbatim>\<open>float\<close>
  parameter, infinities and NaN are outside the model; where C yields NaN (\<^verbatim>\<open>asin\<close>
  outside \<open>[-1, 1]\<close>) the real term has no specified meaning, and the theorems that
  depend on such a term restrict their inputs to the domain where C computes a number.
\<close>

section \<open>Geometry.cpp: the 4/3 Earth model\<close>

definition EARTH_RADIUSi :: int where
  "EARTH_RADIUSi = 6371000"

definition EARTH_RADIUS_43 :: real where
  "EARTH_RADIUS_43 = 4 / 3 * real_of_int EARTH_RADIUSi"

text \<open>\<^verbatim>\<open>heightFromEtaBeam(float eta, float b)\<close>, by the cosine rule.\<close>

definition heightFromEtaBeam :: "real \<Rightarrow> real \<Rightarrow> real" where
  "heightFromEtaBeam eta b =
     (let a = EARTH_RADIUS_43
      in sqrt (a * a + b * b - 2 * a * b * cos (pi / 2 + eta)) - a)"

definition heightFromEtaBeta :: "real \<Rightarrow> real \<Rightarrow> real" where
  "heightFromEtaBeta eta beta =
     (let a = EARTH_RADIUS_43
      in a * (cos eta / cos (beta + eta) - 1))"

definition heightFromEtaGround :: "real \<Rightarrow> real \<Rightarrow> real" where
  "heightFromEtaGround eta g =
     (let a = EARTH_RADIUS_43;
          beta = g / (EARTH_RADIUS_43 * 2)
      in a * (cos eta / cos (eta + beta) - 1))"

definition beamFromBetaH :: "real \<Rightarrow> real \<Rightarrow> real" where
  "beamFromBetaH beta h =
     (let a = EARTH_RADIUS_43
      in sqrt ((2 * a) * (a + h) * (1 - cos beta) + h * h))"

definition beamFromEtaH :: "real \<Rightarrow> real \<Rightarrow> real" where
  "beamFromEtaH eta h =
     (let c = EARTH_RADIUS_43 + h;
          a = EARTH_RADIUS_43;
          gamma = eta + pi / 2;
          beta = pi - gamma - arcsin (a * sin gamma / c)
      in sin beta * c / sin gamma)"

subsection \<open>findClosestElevations\<close>

text \<open>
  The four output parameters of \<^verbatim>\<open>Geometry::findClosestElevations\<close> are the fields of a
  record; the member \<^verbatim>\<open>elevationAngles\<close> (a \<^verbatim>\<open>vector<float>\<close>) is the list argument.
  An index is an \<^verbatim>\<open>int\<close>, with \<open>- 1\<close> for "none". The \<^verbatim>\<open>for\<close> loop is the recursion
  on the loop counter \<open>i\<close>; its body is one function.
\<close>

record closest_elevations =
  elevationIndexLower :: int
  elevationAngleLower :: real
  elevationIndexUpper :: int
  elevationAngleUpper :: real

definition findClosestElevations_body ::
    "real \<Rightarrow> nat \<Rightarrow> real \<Rightarrow> closest_elevations \<Rightarrow> closest_elevations" where
  "findClosestElevations_body elevationAngle i e r =
     (let r1 = (if e > elevationAngleLower r \<and> e \<le> elevationAngle
                then r\<lparr>elevationIndexLower := int i, elevationAngleLower := e\<rparr>
                else r)
      in if e < elevationAngleUpper r1 \<and> e \<ge> elevationAngle
         then r1\<lparr>elevationIndexUpper := int i, elevationAngleUpper := e\<rparr>
         else r1)"

function findClosestElevations_loop ::
    "real list \<Rightarrow> real \<Rightarrow> nat \<Rightarrow> closest_elevations \<Rightarrow> closest_elevations" where
  "findClosestElevations_loop elevationAngles elevationAngle i r =
     (if i < length elevationAngles
      then findClosestElevations_loop elevationAngles elevationAngle (Suc i)
             (findClosestElevations_body elevationAngle i (elevationAngles ! i) r)
      else r)"
  by pat_completeness auto
termination
  by (relation "measure (\<lambda>(elevationAngles, elevationAngle, i, r). length elevationAngles - i)") auto

definition findClosestElevations :: "real list \<Rightarrow> real \<Rightarrow> closest_elevations" where
  "findClosestElevations elevationAngles elevationAngle =
     findClosestElevations_loop elevationAngles elevationAngle 0
       \<lparr>elevationIndexLower = - 1, elevationAngleLower = - pi / 2,
        elevationIndexUpper = - 1, elevationAngleUpper = pi / 2\<rparr>"

declare findClosestElevations_loop.simps [simp del]

section \<open>Coordinates.cpp: the site frame\<close>

text \<open>
  Modelled from the spec: the constant \<^verbatim>\<open>EARTH_RADIUS\<close> is declared in
  \<^verbatim>\<open>Coordinates.h\<close>, which is not among the sources. The spec gives the Earth radius
  constant \<open>R = 6 371 000 m\<close>, the value \<^verbatim>\<open>Geometry.cpp\<close> also gives to
  \<^verbatim>\<open>EARTH_RADIUSi\<close>.
\<close>

definition EARTH_RADIUS :: real where
  "EARTH_RADIUS = 6371000"

text \<open>
  The C library's \<^verbatim>\<open>atan2(y, x)\<close>: the angle of the point \<open>(x, y)\<close> in \<open>(- \<pi>, \<pi>]\<close>,
  and 0 at the origin.
\<close>

definition atan2 :: "real \<Rightarrow> real \<Rightarrow> real" where
  "atan2 y x =
     (if 0 < x then arctan (y / x)
      else if x < 0 then (if 0 \<le> y then arctan (y / x) + pi else arctan (y / x) - pi)
      else if 0 < y then pi / 2
      else if y < 0 then - pi / 2
      else 0)"

text \<open>
  The data members of the class \<^verbatim>\<open>Coordinates\<close> that \<^verbatim>\<open>origin\<close> and \<^verbatim>\<open>setBinPosition\<close>
  write: the site position \<open>p0\<close>, the unit vectors east \<open>e1\<close> and north \<open>e2\<close>, the bin
  position \<open>p\<close>, and the bin's longitude \<open>phiBin\<close> and latitude \<open>thetaBin\<close>. The object
  is passed in and returned.
\<close>

record Coordinates =
  p01 :: real
  p02 :: real
  p03 :: real
  e11 :: real
  e12 :: real
  e13 :: real
  e21 :: real
  e22 :: real
  e23 :: real
  p1 :: real
  p2 :: real
  p3 :: real
  phiBin :: real
  thetaBin :: real

definition origin :: "Coordinates \<Rightarrow> real \<Rightarrow> real \<Rightarrow> Coordinates" where
  "origin this theta phi =
     (let sin_theta = sin theta;
          cos_theta = cos theta;
          sin_phi = sin phi;
          cos_phi = cos phi
      in this\<lparr>p01 := EARTH_RADIUS * cos_phi * cos_theta,
               p02 := EARTH_RADIUS * sin_phi * cos_theta,
               p03 := EARTH_RADIUS * sin_theta,
               e11 := - sin_phi,
               e12 := cos_phi,
               e13 := 0,
               e21 := - cos_phi * sin_theta,
               e22 := - sin_phi * sin_theta,
               e23 := cos_theta\<rparr>)"

text \<open>
  \<^verbatim>\<open>setBinPosition(const double &azimuth, const float &range)\<close>; the parameter is
  written \<open>range'\<close> here, \<open>range\<close> being a constant of HOL.
\<close>

definition setBinPosition :: "Coordinates \<Rightarrow> real \<Rightarrow> real \<Rightarrow> Coordinates" where
  "setBinPosition this azimuth range' =
     (let x1 = cos (range' / (EARTH_RADIUS * 2));
          x2 = range' * sin azimuth;
          x3 = range' * cos azimuth;
          this1 = this\<lparr>p1 := p01 this * x1 + e11 this * x2 + e21 this * x3\<rparr>;
          this2 = this1\<lparr>p2 := p02 this1 * x1 + e12 this1 * x2 + e22 this1 * x3\<rparr>;
          this3 = this2\<lparr>p3 := p03 this2 * x1 + e13 this2 * x2 + e23 this2 * x3\<rparr>;
          this4 = this3\<lparr>phiBin := atan2 (p2 this3) (p1 this3)\<rparr>
      in this4\<lparr>thetaBin := arcsin (p3 this4 / EARTH_RADIUS)\<rparr>)"

section \<open>odim_io_utilities.c\<close>

subsection \<open>The attribute and the ODIM version\<close>

text \<open>
  The C library's \<^verbatim>\<open>strcasecmp\<close> in the C locale: the two strings are compared byte by
  byte after \<^verbatim>\<open>tolower\<close>, and the result is 0 exactly when they agree up to the case of
  the letters A to Z. A C string is the list of its characters before the terminating
  NUL.
\<close>

definition tolower :: "char \<Rightarrow> char" where
  "tolower c =
     (if 65 \<le> (of_char c :: nat) \<and> (of_char c :: nat) \<le> 90
      then char_of (of_char c + 32 :: nat) else c)"

fun strcasecmp :: "string \<Rightarrow> string \<Rightarrow> int" where
  "strcasecmp [] [] = 0"
| "strcasecmp [] (y # ys) = - int (of_char (tolower y))"
| "strcasecmp (x # xs) [] = int (of_char (tolower x))"
| "strcasecmp (x # xs) (y # ys) =
     (let d = int (of_char (tolower x)) - int (of_char (tolower y))
      in if d \<noteq> 0 then d else strcasecmp xs ys)"

text \<open>
  Modelled from the spec: the attribute type \<^verbatim>\<open>RaveAttribute_t\<close> and its accessors
  (\<^verbatim>\<open>rave_attribute.h\<close>) are not among the sources. The spec speaks of attributes with a
  double value (\<open>how/nomTXpower\<close>, \<open>how/peakpwr\<close>, \<open>how/avgpwr\<close>, \<open>how/gasattn\<close>, ...) and
  of the array \<open>how/TXpower\<close>; an attribute is modelled as its format together with the
  value of that format. \<^verbatim>\<open>RaveAttribute_getDouble\<close> writes the value through its pointer
  argument when the format is double and leaves it as it was otherwise;
  \<^verbatim>\<open>RaveAttribute_setDouble\<close> makes the attribute a double;
  \<^verbatim>\<open>RaveAttribute_getDoubleArray\<close> hands out the attribute's own array, so that the loops
  below, which assign to its elements, change the attribute (\<open>store_DoubleArray\<close>).
\<close>

datatype RaveAttribute_Format =
    RaveAttribute_Format_Undefined
  | RaveAttribute_Format_String
  | RaveAttribute_Format_Long
  | RaveAttribute_Format_Double
  | RaveAttribute_Format_LongArray
  | RaveAttribute_Format_DoubleArray

datatype RaveAttribute_t =
    Attr_Undefined
  | Attr_String string
  | Attr_Long int
  | Attr_Double real
  | Attr_LongArray "int list"
  | Attr_DoubleArray "real list"

fun RaveAttribute_getFormat :: "RaveAttribute_t \<Rightarrow> RaveAttribute_Format" where
  "RaveAttribute_getFormat Attr_Undefined = RaveAttribute_Format_Undefined"
| "RaveAttribute_getFormat (Attr_String s) = RaveAttribute_Format_String"
| "RaveAttribute_getFormat (Attr_Long n) = RaveAttribute_Format_Long"
| "RaveAttribute_getFormat (Attr_Double d) = RaveAttribute_Format_Double"
| "RaveAttribute_getFormat (Attr_LongArray ns) = RaveAttribute_Format_LongArray"
| "RaveAttribute_getFormat (Attr_DoubleArray ds) = RaveAttribute_Format_DoubleArray"

fun RaveAttribute_getDouble :: "RaveAttribute_t \<Rightarrow> real \<Rightarrow> real" where
  "RaveAttribute_getDouble (Attr_Double d) v = d"
| "RaveAttribute_getDouble a v = v"

definition RaveAttribute_setDouble :: "RaveAttribute_t \<Rightarrow> real \<Rightarrow> RaveAttribute_t" where
  "RaveAttribute_setDouble a v = Attr_Double v"

fun RaveAttribute_getDoubleArray :: "RaveAttribute_t \<Rightarrow> real list" where
  "RaveAttribute_getDoubleArray (Attr_DoubleArray ds) = ds"
| "RaveAttribute_getDoubleArray a = []"

fun store_DoubleArray :: "RaveAttribute_t \<Rightarrow> real list \<Rightarrow> RaveAttribute_t" where
  "store_DoubleArray (Attr_DoubleArray ds) darr = Attr_DoubleArray darr"
| "store_DoubleArray a darr = a"

text \<open>
  The two \<^verbatim>\<open>for (i = 0; i < nlen; i++)\<close> loops over \<^verbatim>\<open>darr\<close>, as recursion on \<open>i\<close>.
\<close>

function TXpower_to_internal_loop :: "real list \<Rightarrow> nat \<Rightarrow> nat \<Rightarrow> real list" where
  "TXpower_to_internal_loop darr nlen i =
     (if i < nlen
      then TXpower_to_internal_loop (darr[i := 10 powr ((darr ! i - 30) / 10) / 1000]) nlen (Suc i)
      else darr)"
  by pat_completeness auto
termination
  by (relation "measure (\<lambda>(darr, nlen, i). nlen - i)") auto

function TXpower_from_internal_loop :: "real list \<Rightarrow> nat \<Rightarrow> nat \<Rightarrow> real list" where
  "TXpower_from_internal_loop darr nlen i =
     (if i < nlen
      then TXpower_from_internal_loop
             (if darr ! i > 0 then darr[i := 10 * log 10 (1000 * (darr ! i)) + 30] else darr)
             nlen (Suc i)
      else darr)"
  by pat_completeness auto
termination
  by (relation "measure (\<lambda>(darr, nlen, i). nlen - i)") auto

declare TXpower_to_internal_loop.simps [simp del] TXpower_from_internal_loop.simps [simp del]

text \<open>
  The enumeration \<^verbatim>\<open>RaveIO_ODIM_Version\<close> is declared outside the sources. A version is
  its integer code, as C compares it, and the code of \<^verbatim>\<open>RaveIO_ODIM_Version_2_4\<close> is the
  first parameter of the two conversion functions: every theorem below holds for any
  value of it. The functions return the C result and the attribute, which C updates in
  place.
\<close>

definition OdimIoUtilities_convertHowAttributeToInternalRave ::
    "int \<Rightarrow> string \<Rightarrow> int \<Rightarrow> RaveAttribute_t \<Rightarrow> int \<times> RaveAttribute_t" where
  "OdimIoUtilities_convertHowAttributeToInternalRave RaveIO_ODIM_Version_2_4 attrname origversion inattr =
     (if origversion < RaveIO_ODIM_Version_2_4 then (1, inattr)
      else if RaveAttribute_getFormat inattr = RaveAttribute_Format_Double then
        (let v = RaveAttribute_getDouble inattr 0
         in if strcasecmp ''how/gasattn'' attrname = 0
            then (1, RaveAttribute_setDouble inattr (v * 1000))
            else if strcasecmp ''how/minrange'' attrname = 0 \<or>
                    strcasecmp ''how/maxrange'' attrname = 0 \<or>
                    strcasecmp ''how/melting_layer_top_A'' attrname = 0 \<or>
                    strcasecmp ''how/melting_layer_bottom_A'' attrname = 0
            then (1, RaveAttribute_setDouble inattr (v / 1000))
            else if strcasecmp ''how/nomTXpower'' attrname = 0 \<or>
                    strcasecmp ''how/peakpwr'' attrname = 0 \<or>
                    strcasecmp ''how/avgpwr'' attrname = 0
            then (1, RaveAttribute_setDouble inattr (10 powr ((v - 30) / 10) / 1000))
            else (1, inattr))
      else if RaveAttribute_getFormat inattr = RaveAttribute_Format_DoubleArray \<and>
              strcasecmp ''how/TXpower'' attrname = 0 then
        (let darr = RaveAttribute_getDoubleArray inattr;
             nlen = length darr
         in (1, store_DoubleArray inattr (TXpower_to_internal_loop darr nlen 0)))
      else (1, inattr))"

definition OdimIoUtilities_convertHowAttributeFromInternalRave ::
    "int \<Rightarrow> string \<Rightarrow> int \<Rightarrow> RaveAttribute_t \<Rightarrow> int \<times> RaveAttribute_t" where
  "OdimIoUtilities_convertHowAttributeFromInternalRave RaveIO_ODIM_Version_2_4 attrname outversion inattr =
     (if outversion < RaveIO_ODIM_Version_2_4 then (1, inattr)
      else if RaveAttribute_getFormat inattr = RaveAttribute_Format_Double then
        (let v = RaveAttribute_getDouble inattr 0
         in if strcasecmp ''how/gasattn'' attrname = 0
            then (1, RaveAttribute_setDouble inattr (v / 1000))
            else if strcasecmp ''how/minrange'' attrname = 0 \<or>
                    strcasecmp ''how/maxrange'' attrname = 0 \<or>
                    strcasecmp ''how/melting_layer_top_A'' attrname = 0 \<or>
                    strcasecmp ''how/melting_layer_bottom_A'' attrname = 0
            then (1, RaveAttribute_setDouble inattr (v * 1000))
            else if strcasecmp ''how/nomTXpower'' attrname = 0 \<or>
                    strcasecmp ''how/peakpwr'' attrname = 0 \<or>
                    strcasecmp ''how/avgpwr'' attrname = 0
            then (if v > 0
                  then (1, RaveAttribute_setDouble inattr (10 * log 10 (1000 * v) + 30))
                  else (1, inattr))
            else (1, inattr))
      else if RaveAttribute_getFormat inattr = RaveAttribute_Format_DoubleArray \<and>
              strcasecmp ''how/TXpower'' attrname = 0 then
        (let darr = RaveAttribute_getDoubleArray inattr;
             nlen = length darr
         in (1, store_DoubleArray inattr (TXpower_from_internal_loop darr nlen 0)))
      else (1, inattr))"

subsection \<open>Source identifiers\<close>

text \<open>
  The C library's \<^verbatim>\<open>strstr\<close> (the suffix of the haystack that starts at the first
  occurrence of the needle), \<^verbatim>\<open>strpbrk\<close> (the suffix that starts at the first character
  of the accept set) and \<^verbatim>\<open>strncpy\<close> (exactly \<open>n\<close> bytes are written: the source, then
  NUL padding). A pointer that may be \<^verbatim>\<open>NULL\<close> is an \<^typ>\<open>string option\<close>. The caller's
  buffer is the list of the bytes it holds, and \<^verbatim>\<open>buflen\<close> is the size the caller
  announces. Lengths are natural numbers: the C code keeps \<^verbatim>\<open>len\<close> in an \<^verbatim>\<open>int\<close>, which
  is the same for every string shorter than \<open>2\<^sup>3\<^sup>1 - 1\<close> bytes.
\<close>

definition NUL :: char where
  "NUL = CHR 0x00"

fun strstr :: "string \<Rightarrow> string \<Rightarrow> string option" where
  "strstr [] needle = (if needle = [] then Some [] else None)"
| "strstr (c # cs) needle =
     (if prefix needle (c # cs) then Some (c # cs) else strstr cs needle)"

fun strpbrk :: "string \<Rightarrow> string \<Rightarrow> string option" where
  "strpbrk [] accept = None"
| "strpbrk (c # cs) accept = (if c \<in> set accept then Some (c # cs) else strpbrk cs accept)"

definition strncpy :: "string \<Rightarrow> string \<Rightarrow> nat \<Rightarrow> string" where
  "strncpy dest src n = take n (src @ replicate (n - length src) NUL) @ drop n dest"

definition OdimIoUtilities_getIdFromSource ::
    "string option \<Rightarrow> string option \<Rightarrow> string \<Rightarrow> nat \<Rightarrow> int \<times> string" where
  "OdimIoUtilities_getIdFromSource source id' buf buflen =
     (case source of
        None \<Rightarrow> (0, buf)
      | Some src \<Rightarrow>
          (case id' of
             None \<Rightarrow> (0, buf)
           | Some key \<Rightarrow>
               (case strstr src key of
                  None \<Rightarrow> (0, buf)
                | Some p0 \<Rightarrow>
                    (let p = drop (length key) p0;
                         len0 = length p;
                         pbrk = strpbrk p '','';
                         len = (case pbrk of None \<Rightarrow> len0 | Some q \<Rightarrow> length p - length q)
                     in if len + 1 < buflen
                        then (1, (strncpy buf p len)[len := NUL])
                        else (0, buf)))))"

definition OdimIoUtilities_getNodOrCmtFromSource ::
    "string option \<Rightarrow> string \<Rightarrow> nat \<Rightarrow> int \<times> string" where
  "OdimIoUtilities_getNodOrCmtFromSource source buf buflen =
     (let (result, buf1) = OdimIoUtilities_getIdFromSource source (Some ''NOD:'') buf buflen
      in if result = 0
         then OdimIoUtilities_getIdFromSource source (Some ''CMT:'') buf1 buflen
         else (result, buf1))"

section \<open>Notions used in the statements\<close>

text \<open>
  The loop invariant of \<open>findClosestElevations\<close> after \<open>i\<close> elements: either no element
  so far is at most the target, or the lower index points at the greatest such element
  (and the same for the upper index and the elements at least the target).
\<close>

definition lower_inv :: "real list \<Rightarrow> real \<Rightarrow> nat \<Rightarrow> closest_elevations \<Rightarrow> bool" where
  "lower_inv es t i r \<longleftrightarrow>
     (elevationIndexLower r = - 1 \<and> elevationAngleLower r = - pi / 2 \<and> (\<forall>j<i. t < es ! j))
     \<or> (\<exists>n<i. elevationIndexLower r = int n \<and> elevationAngleLower r = es ! n \<and> es ! n \<le> t
            \<and> (\<forall>j<i. es ! j \<le> t \<longrightarrow> es ! j \<le> es ! n))"

definition upper_inv :: "real list \<Rightarrow> real \<Rightarrow> nat \<Rightarrow> closest_elevations \<Rightarrow> bool" where
  "upper_inv es t i r \<longleftrightarrow>
     (elevationIndexUpper r = - 1 \<and> elevationAngleUpper r = pi / 2 \<and> (\<forall>j<i. es ! j < t))
     \<or> (\<exists>n<i. elevationIndexUpper r = int n \<and> elevationAngleUpper r = es ! n \<and> t \<le> es ! n
            \<and> (\<forall>j<i. t \<le> es ! j \<longrightarrow> es ! n \<le> es ! j))"

text \<open>Vectors of the Earth-centred frame, to state \<open>setBinPosition\<close> as the spec does.\<close>

type_synonym vec3 = "real \<times> real \<times> real"

definition vscale :: "real \<Rightarrow> vec3 \<Rightarrow> vec3" where
  "vscale k v = (case v of (x, y, z) \<Rightarrow> (k * x, k * y, k * z))"

definition vadd :: "vec3 \<Rightarrow> vec3 \<Rightarrow> vec3" where
  "vadd v w = (case v of (x, y, z) \<Rightarrow> case w of (x', y', z') \<Rightarrow> (x + x', y + y', z + z'))"

definition site_p0 :: "Coordinates \<Rightarrow> vec3" where
  "site_p0 c = (p01 c, p02 c, p03 c)"

definition site_eE :: "Coordinates \<Rightarrow> vec3" where
  "site_eE c = (e11 c, e12 c, e13 c)"

definition site_eN :: "Coordinates \<Rightarrow> vec3" where
  "site_eN c = (e21 c, e22 c, e23 c)"

definition bin_p :: "Coordinates \<Rightarrow> vec3" where
  "bin_p c = (p1 c, p2 c, p3 c)"

text \<open>The two unit transforms of the transmitter power attributes.\<close>

definition dBm_of_kW :: "real \<Rightarrow> real" where
  "dBm_of_kW v = (if v > 0 then 10 * log 10 (1000 * v) + 30 else v)"

definition kW_of_dBm :: "real \<Rightarrow> real" where
  "kW_of_dBm v = 10 powr ((v - 30) / 10) / 1000"

section \<open>Geometry: proofs\<close>

lemma EARTH_RADIUS_43_pos: "0 < EARTH_RADIUS_43"
  by (simp add: EARTH_RADIUS_43_def EARTH_RADIUSi_def)

lemma heightFromEtaBeam_alt:
  "heightFromEtaBeam eta b =
     sqrt (EARTH_RADIUS_43\<^sup>2 + b\<^sup>2 + 2 * EARTH_RADIUS_43 * b * sin eta) - EARTH_RADIUS_43"
  by (simp add: heightFromEtaBeam_def Let_def power2_eq_square cos_add)

lemma heightFromEtaBeam_less:
  assumes "- (EARTH_RADIUS_43 * sin eta) \<le> b1" and "b1 < b2"
  shows "heightFromEtaBeam eta b1 < heightFromEtaBeam eta b2"
proof -
  let ?a = EARTH_RADIUS_43
  have "0 < (b2 - b1) * ((b1 + ?a * sin eta) + (b2 + ?a * sin eta))"
    using assms by (intro mult_pos_pos) auto
  then have "?a\<^sup>2 + b1\<^sup>2 + 2 * ?a * b1 * sin eta < ?a\<^sup>2 + b2\<^sup>2 + 2 * ?a * b2 * sin eta"
    by (simp add: algebra_simps power2_eq_square)
  then show ?thesis
    by (simp add: heightFromEtaBeam_alt)
qed


text \<open>
  The triangle Earth centre, radar, bin: after \<open>heightFromEtaBeam\<close> the side
  \<open>c = a + h\<close> satisfies \<open>c\<^sup>2 = (a sin \<eta> + b)\<^sup>2 + (a cos \<eta>)\<^sup>2\<close>, so the angle at the bin
  has sine \<open>a cos \<eta> / c\<close> and cosine \<open>(a sin \<eta> + b) / c\<close>, and the sine rule of
  \<open>beamFromEtaH\<close> gives the side \<open>b\<close> back.
\<close>

lemma beamFromEtaH_heightFromEtaBeam:
  assumes eta: "- (pi / 2) < eta" "eta < pi / 2"
    and b: "0 \<le> EARTH_RADIUS_43 * sin eta + b"
  shows "beamFromEtaH eta (heightFromEtaBeam eta b) = b"
proof -
  define a where "a = EARTH_RADIUS_43"
  define s where "s = sin eta"
  define k where "k = cos eta"
  define c where "c = sqrt (a\<^sup>2 + b\<^sup>2 + 2 * a * b * s)"
  have a_pos: "0 < a" by (simp add: a_def EARTH_RADIUS_43_pos)
  have k_pos: "0 < k" unfolding k_def using eta by (intro cos_gt_zero_pi) auto
  have sk: "s\<^sup>2 + k\<^sup>2 = 1" by (simp add: s_def k_def)
  have ak_pos: "0 < a * k" using a_pos k_pos by simp
  have split: "a\<^sup>2 + b\<^sup>2 + 2 * a * b * s = (a * s + b)\<^sup>2 + (a * k)\<^sup>2"
  proof -
    have "(a * s + b)\<^sup>2 + (a * k)\<^sup>2 = a\<^sup>2 * (s\<^sup>2 + k\<^sup>2) + b\<^sup>2 + 2 * a * b * s"
      by (simp add: power2_eq_square algebra_simps)
    then show ?thesis by (simp add: sk)
  qed
  have rad_pos: "0 < a\<^sup>2 + b\<^sup>2 + 2 * a * b * s"
    unfolding split using ak_pos by (intro add_nonneg_pos) auto
  have c_pos: "0 < c" unfolding c_def using rad_pos by simp
  have c2: "c\<^sup>2 = (a * s + b)\<^sup>2 + (a * k)\<^sup>2"
    unfolding c_def using rad_pos split by simp
  have h: "heightFromEtaBeam eta b = c - a"
    by (simp add: heightFromEtaBeam_alt c_def a_def s_def)
  define x where "x = a * k / c"
  have x_pos: "0 < x" unfolding x_def using ak_pos c_pos by simp
  have "(a * k)\<^sup>2 \<le> c\<^sup>2" unfolding c2 by simp
  then have "a * k \<le> c" by (rule power2_le_imp_le) (use c_pos in simp)
  then have x_le: "x \<le> 1" unfolding x_def using c_pos by simp
  have "1 - x\<^sup>2 = ((a * s + b) / c)\<^sup>2"
  proof -
    have "1 - x\<^sup>2 = (c\<^sup>2 - (a * k)\<^sup>2) / c\<^sup>2"
      unfolding x_def using c_pos by (simp add: power_divide diff_divide_distrib)
    also have "\<dots> = (a * s + b)\<^sup>2 / c\<^sup>2" by (simp add: c2)
    finally show ?thesis by (simp add: power_divide)
  qed
  moreover have "0 \<le> (a * s + b) / c" using b c_pos by (simp add: a_def s_def)
  ultimately have "sqrt (1 - x\<^sup>2) = (a * s + b) / c"
    by (simp only: real_sqrt_abs abs_of_nonneg)
  then have cosx: "cos (arcsin x) = (a * s + b) / c"
    using x_pos x_le cos_arcsin [of x] by simp
  have sinx: "sin (arcsin x) = x" using x_pos x_le by simp
  have "sin (pi - (eta + pi / 2) - arcsin x) = sin ((eta + pi / 2) + arcsin x)"
    using sin_pi_minus [of "(eta + pi / 2) + arcsin x"] by (simp add: algebra_simps)
  also have "\<dots> = k * ((a * s + b) / c) - s * x"
    by (simp add: sin_add [of "eta + pi / 2"] sin_add [of eta] cos_add [of eta] cosx sinx k_def s_def)
  also have "\<dots> = k * b / c"
    unfolding x_def using c_pos by (simp add: field_simps)
  finally have sb: "sin (pi - (eta + pi / 2) - arcsin x) = k * b / c" .
  have sg: "sin (eta + pi / 2) = k" by (simp add: sin_add k_def)
  have "beamFromEtaH eta (c - a) = sin (pi - (eta + pi / 2) - arcsin x) * c / k"
    by (simp add: beamFromEtaH_def Let_def a_def [symmetric] sg x_def)
  also have "\<dots> = b" unfolding sb using c_pos k_pos by simp
  finally show ?thesis by (simp add: h)
qed

text \<open>
  Claim C2. For every elevation angle \<open>\<eta>\<close> in \<open>[0, 60 degrees]\<close> and every slant range
  \<open>b\<close> in \<open>[1 km, 250 km]\<close>, \<open>beamFromEtaH \<eta> (heightFromEtaBeam \<eta> b)\<close> is \<open>b\<close> to within
  1 m: over the reals the second function inverts the first exactly.
\<close>

theorem geometry_round_trip:
  assumes "0 \<le> eta" and "eta \<le> pi / 3" and "1000 \<le> b" and "b \<le> 250000"
  shows "beamFromEtaH eta (heightFromEtaBeam eta b) = b
    \<and> \<bar>beamFromEtaH eta (heightFromEtaBeam eta b) - b\<bar> \<le> 1"
proof -
  have "eta \<le> pi"
    using assms pi_gt_zero by linarith
  then have "0 \<le> sin eta"
    using assms by (intro sin_ge_zero) auto
  then have "0 \<le> EARTH_RADIUS_43 * sin eta + b"
    using assms EARTH_RADIUS_43_pos by (intro add_nonneg_nonneg mult_nonneg_nonneg) auto
  moreover have "- (pi / 2) < eta"
    using assms pi_gt_zero by linarith
  moreover have "eta < pi / 2"
    using assms pi_gt_zero by linarith
  ultimately have "beamFromEtaH eta (heightFromEtaBeam eta b) = b"
    by (intro beamFromEtaH_heightFromEtaBeam)
  then show ?thesis by simp
qed

theorem geometry_round_trip_witness:
  "(0::real) \<le> 0 \<and> (0::real) \<le> pi / 3 \<and> (1000::real) \<le> 1000 \<and> (1000::real) \<le> 250000
    \<and> beamFromEtaH 0 (heightFromEtaBeam 0 1000) = 1000
    \<and> \<bar>beamFromEtaH 0 (heightFromEtaBeam 0 1000) - 1000\<bar> \<le> 1"
  using geometry_round_trip [of 0 1000] by simp

text \<open>
  Claim C4. For every elevation \<open>\<eta>\<close> and ground distance \<open>g\<close>, \<open>heightFromEtaGround \<eta> g\<close>
  is \<open>heightFromEtaBeta \<eta> (g / (2 a))\<close> with \<open>a = EARTH_RADIUS_43\<close>: the ground angle is
  the ground distance over twice the effective radius. It is not the beta variant at
  \<open>g / a\<close>: at \<open>\<eta> = 0\<close> and \<open>g = (2 \<pi> / 3) a\<close> the two differ (\<open>a\<close> against \<open>- 3 a\<close>).
\<close>

theorem heightFromEtaGround_is_beta_of_half_angle:
  "heightFromEtaGround eta g = heightFromEtaBeta eta (g / (2 * EARTH_RADIUS_43))
    \<and> heightFromEtaGround 0 (2 * pi / 3 * EARTH_RADIUS_43)
        \<noteq> heightFromEtaBeta 0 (2 * pi / 3 * EARTH_RADIUS_43 / EARTH_RADIUS_43)"
proof -
  have a: "EARTH_RADIUS_43 \<noteq> 0" using EARTH_RADIUS_43_pos by simp
  have 1: "heightFromEtaGround 0 (2 * pi / 3 * EARTH_RADIUS_43) = EARTH_RADIUS_43"
    using a by (simp add: heightFromEtaGround_def Let_def cos_60)
  have 2: "heightFromEtaBeta 0 (2 * pi / 3 * EARTH_RADIUS_43 / EARTH_RADIUS_43) = - 3 * EARTH_RADIUS_43"
    using a by (simp add: heightFromEtaBeta_def Let_def cos_120)
  have "heightFromEtaGround eta g = heightFromEtaBeta eta (g / (2 * EARTH_RADIUS_43))"
    by (simp add: heightFromEtaGround_def heightFromEtaBeta_def Let_def add.commute mult.commute)
  then show ?thesis using 1 2 a by simp
qed

text \<open>
  How much the exact values grow over a step. Over a step of at least 1 m in the slant
  range the height grows by at least \<open>(b1 + b2) / (2 (a + 250000))\<close>, which is at least
  \<open>5.7 \<times> 10\<^sup>-\<^sup>8\<close> m; over a step of at least \<open>1 / a\<close> in the ground angle (1 m of ground
  distance) the square of the beam distance grows by at least
  \<open>2 a (a + h) (1 - cos (1 / a))\<close>, about 1 square metre. Here \<open>a = EARTH_RADIUS_43\<close>.
\<close>

lemma heightFromEtaBeam_step_margin:
  assumes "0 \<le> eta" and "eta \<le> pi / 2" and "0 \<le> b1" and "b1 + 1 \<le> b2" and "b2 \<le> 250000"
  shows "(b1 + b2) / (2 * (EARTH_RADIUS_43 + 250000))
           \<le> heightFromEtaBeam eta b2 - heightFromEtaBeam eta b1"
proof -
  define a where "a = EARTH_RADIUS_43"
  define s where "s = sin eta"
  define c1 where "c1 = sqrt (a\<^sup>2 + b1\<^sup>2 + 2 * a * b1 * s)"
  define c2 where "c2 = sqrt (a\<^sup>2 + b2\<^sup>2 + 2 * a * b2 * s)"
  have a_pos: "0 < a" by (simp add: a_def EARTH_RADIUS_43_pos)
  have "eta \<le> pi" using assms(2) pi_gt_zero by linarith
  then have s0: "0 \<le> s" unfolding s_def using assms(1) by (intro sin_ge_zero) auto
  have s1: "s \<le> 1" by (simp add: s_def)
  have b2_pos: "0 < b2" using assms by linarith
  have t1: "0 \<le> 2 * a * b1 * s" using a_pos s0 assms(3) by simp
  have t2: "0 \<le> 2 * a * b2 * s" using a_pos s0 b2_pos by simp
  have q0: "0 < a\<^sup>2" using a_pos by simp
  have r1: "0 \<le> a\<^sup>2 + b1\<^sup>2 + 2 * a * b1 * s"
    by (rule add_nonneg_nonneg [OF add_nonneg_nonneg [OF less_imp_le [OF q0] zero_le_power2] t1])
  have r2: "0 < a\<^sup>2 + b2\<^sup>2 + 2 * a * b2 * s"
    by (rule add_pos_nonneg [OF add_pos_nonneg [OF q0 zero_le_power2] t2])
  have c1_nonneg: "0 \<le> c1" unfolding c1_def using r1 by simp
  have c2_pos: "0 < c2" unfolding c2_def using r2 by simp
  have le: "sqrt (a\<^sup>2 + b\<^sup>2 + 2 * a * b * s) \<le> a + b" if "0 \<le> b" for b
  proof -
    have "a * b * s \<le> a * b * 1"
      using a_pos that s1 by (intro mult_left_mono mult_nonneg_nonneg) auto
    then have "a\<^sup>2 + b\<^sup>2 + 2 * a * b * s \<le> (a + b)\<^sup>2"
      by (simp add: power2_eq_square algebra_simps)
    then have "sqrt (a\<^sup>2 + b\<^sup>2 + 2 * a * b * s) \<le> sqrt ((a + b)\<^sup>2)"
      by (simp only: real_sqrt_le_iff)
    then show ?thesis using a_pos that by simp
  qed
  have u1: "c1 \<le> a + b1" unfolding c1_def using assms(3) by (rule le)
  have u2: "c2 \<le> a + b2" unfolding c2_def using b2_pos by (intro le) simp
  have "b1 \<le> 250000" using assms(4,5) by linarith
  then have "c1 \<le> a + 250000" and "c2 \<le> a + 250000"
    using u1 u2 assms(5) by linarith+
  then have sum: "c1 + c2 \<le> 2 * (a + 250000)" by simp
  have sum_pos: "0 < c1 + c2" using c1_nonneg c2_pos by linarith
  have sq: "c2\<^sup>2 - c1\<^sup>2 = (b2 - b1) * (b1 + b2 + 2 * a * s)"
    unfolding c1_def c2_def using r1 r2 by (simp add: power2_eq_square algebra_simps)
  have "0 \<le> 2 * a * s" using a_pos s0 by simp
  then have "1 * (b1 + b2) \<le> (b2 - b1) * (b1 + b2 + 2 * a * s)"
    using assms by (intro mult_mono) auto
  then have num: "b1 + b2 \<le> c2\<^sup>2 - c1\<^sup>2" by (simp add: sq)
  have "(b1 + b2) / (2 * (a + 250000)) \<le> (b1 + b2) / (c1 + c2)"
    using sum sum_pos assms by (intro divide_left_mono mult_pos_pos) auto
  also have "\<dots> \<le> (c2\<^sup>2 - c1\<^sup>2) / (c1 + c2)"
    using num sum_pos by (intro divide_right_mono) auto
  also have "\<dots> = c2 - c1"
  proof -
    have "c2\<^sup>2 - c1\<^sup>2 = (c2 - c1) * (c1 + c2)"
      by (simp add: power2_eq_square algebra_simps)
    then show ?thesis using sum_pos by simp
  qed
  finally show ?thesis
    by (simp add: heightFromEtaBeam_alt a_def s_def c1_def c2_def)
qed

lemma one_minus_cos_le: "1 - cos x \<le> x\<^sup>2 / 2" for x :: real
proof -
  have "1 - cos x = 2 * (sin (x / 2))\<^sup>2"
    using cos_double_sin [of "x / 2"] by simp
  also have "(sin (x / 2))\<^sup>2 \<le> (x / 2)\<^sup>2"
    using abs_sin_x_le_abs_x [of "x / 2"] by (simp only: abs_le_square_iff [symmetric])
  finally show ?thesis by (simp add: power2_eq_square)
qed

lemma cos_step:
  assumes "0 \<le> beta1" and "beta1 + d \<le> beta2" and "beta2 \<le> pi" and "0 \<le> d"
  shows "1 - cos d \<le> cos beta1 - cos beta2"
proof -
  have "cos beta2 \<le> cos (beta1 + d)"
    using assms by (intro cos_monotone_0_pi_le) auto
  moreover have "1 - cos d \<le> cos beta1 - cos (beta1 + d)"
  proof -
    have 1: "cos beta1 - cos (beta1 + d) = 2 * sin (beta1 + d / 2) * sin (d / 2)"
      using cos_diff_cos [of beta1 "beta1 + d"] by (simp add: field_simps)
    have 2: "1 - cos d = 2 * sin (d / 2) * sin (d / 2)"
      using cos_double_sin [of "d / 2"] by (simp add: power2_eq_square)
    have d2: "0 \<le> d / 2" "d / 2 \<le> pi / 2" using assms by auto
    have sd: "0 \<le> sin (d / 2)" using d2 pi_gt_zero by (intro sin_ge_zero) auto
    have "sin (d / 2) \<le> sin (beta1 + d / 2)"
    proof (cases "beta1 + d / 2 \<le> pi / 2")
      case True
      then show ?thesis using assms d2 by (intro sin_monotone_2pi_le) auto
    next
      case False
      have "sin (d / 2) \<le> sin (pi - (beta1 + d / 2))"
        using False assms d2 by (intro sin_monotone_2pi_le) auto
      then show ?thesis by simp
    qed
    then have "sin (d / 2) * sin (d / 2) \<le> sin (beta1 + d / 2) * sin (d / 2)"
      using sd by (intro mult_right_mono) auto
    then show ?thesis unfolding 1 2 by simp
  qed
  ultimately show ?thesis by linarith
qed

lemma beamFromBetaH_step_margin:
  assumes "0 \<le> h" and "0 \<le> beta1" and "beta1 + 1 / EARTH_RADIUS_43 \<le> beta2" and "beta2 \<le> pi"
  shows "2 * EARTH_RADIUS_43 * (EARTH_RADIUS_43 + h) * (1 - cos (1 / EARTH_RADIUS_43))
           \<le> (beamFromBetaH beta2 h)\<^sup>2 - (beamFromBetaH beta1 h)\<^sup>2"
proof -
  define a where "a = EARTH_RADIUS_43"
  have a_pos: "0 < a" by (simp add: a_def EARTH_RADIUS_43_pos)
  have k: "0 \<le> 2 * a * (a + h)" using a_pos assms(1) by simp
  have nonneg: "0 \<le> 2 * a * (a + h) * (1 - cos beta) + h * h" for beta
  proof -
    have "0 \<le> 1 - cos beta" by simp
    then have "0 \<le> 2 * a * (a + h) * (1 - cos beta)" using k by (rule mult_nonneg_nonneg [rotated])
    then show ?thesis by simp
  qed
  have sq: "(beamFromBetaH beta h)\<^sup>2 = 2 * a * (a + h) * (1 - cos beta) + h * h" for beta
    using nonneg [of beta] by (simp add: beamFromBetaH_def Let_def a_def)
  have "1 - cos (1 / a) \<le> cos beta1 - cos beta2"
    using assms a_pos by (intro cos_step) (auto simp: a_def)
  then have "2 * a * (a + h) * (1 - cos (1 / a)) \<le> 2 * a * (a + h) * (cos beta1 - cos beta2)"
    using k by (intro mult_left_mono) auto
  then show ?thesis
    unfolding sq a_def [symmetric] by (simp add: algebra_simps)
qed

text \<open>
  Below such steps the exact values still grow, but by less than double precision
  resolves. At elevation 0 the height at range 1/16 m is positive and below \<open>2\<^sup>-\<^sup>3\<^sup>1\<close>,
  a quarter of the spacing \<open>2\<^sup>-\<^sup>2\<^sup>9\<close> of the double numbers next to \<open>a\<close>, of which the
  height is the difference from \<open>a\<close>; and \<open>cos (2\<^sup>-\<^sup>2\<^sup>9)\<close> is within \<open>2\<^sup>-\<^sup>5\<^sup>9\<close> of 1, where
  the double numbers below 1 are \<open>2\<^sup>-\<^sup>5\<^sup>3\<close> apart.
\<close>

lemma below_double_resolution:
  "heightFromEtaBeam 0 0 = 0"
  "0 < heightFromEtaBeam 0 (1 / 16)"
  "heightFromEtaBeam 0 (1 / 16) < 1 / 2 ^ 31"
  "0 < 1 - cos (1 / 2 ^ 29 :: real)"
  "1 - cos (1 / 2 ^ 29 :: real) \<le> 1 / 2 ^ 59"
proof -
  let ?a = EARTH_RADIUS_43
  show "heightFromEtaBeam 0 0 = 0"
    using EARTH_RADIUS_43_pos by (simp add: heightFromEtaBeam_alt)
  have "heightFromEtaBeam 0 0 < heightFromEtaBeam 0 (1 / 16)"
    by (rule heightFromEtaBeam_less) (use EARTH_RADIUS_43_pos in simp_all)
  then show "0 < heightFromEtaBeam 0 (1 / 16)"
    using EARTH_RADIUS_43_pos by (simp add: heightFromEtaBeam_alt)
  have "?a\<^sup>2 + (1 / 16)\<^sup>2 < (?a + 1 / 2 ^ 31)\<^sup>2"
    by (simp add: EARTH_RADIUS_43_def EARTH_RADIUSi_def power2_eq_square)
  then have "sqrt (?a\<^sup>2 + (1 / 16)\<^sup>2) < sqrt ((?a + 1 / 2 ^ 31)\<^sup>2)"
    by (simp only: real_sqrt_less_iff)
  then show "heightFromEtaBeam 0 (1 / 16) < 1 / 2 ^ 31"
    using EARTH_RADIUS_43_pos by (simp add: heightFromEtaBeam_alt)
  have "cos (1 / 2 ^ 29 :: real) < cos 0"
    using pi_ge_two by (intro cos_monotone_0_pi) auto
  then show "0 < 1 - cos (1 / 2 ^ 29 :: real)" by simp
  show "1 - cos (1 / 2 ^ 29 :: real) \<le> 1 / 2 ^ 59"
    using one_minus_cos_le [of "1 / 2 ^ 29"] by (simp add: power2_eq_square)
qed




section \<open>findClosestElevations: proofs\<close>

lemma body_fields:
  "elevationIndexLower (findClosestElevations_body t i e r) =
     (if e > elevationAngleLower r \<and> e \<le> t then int i else elevationIndexLower r)"
  "elevationAngleLower (findClosestElevations_body t i e r) =
     (if e > elevationAngleLower r \<and> e \<le> t then e else elevationAngleLower r)"
  "elevationIndexUpper (findClosestElevations_body t i e r) =
     (if e < elevationAngleUpper r \<and> e \<ge> t then int i else elevationIndexUpper r)"
  "elevationAngleUpper (findClosestElevations_body t i e r) =
     (if e < elevationAngleUpper r \<and> e \<ge> t then e else elevationAngleUpper r)"
  by (auto simp: findClosestElevations_body_def Let_def)

lemma findClosestElevations_loop_step:
  "i < length es \<Longrightarrow>
     findClosestElevations_loop es t i r =
       findClosestElevations_loop es t (Suc i) (findClosestElevations_body t i (es ! i) r)"
  by (subst findClosestElevations_loop.simps) simp

lemma findClosestElevations_loop_stop:
  "\<not> i < length es \<Longrightarrow> findClosestElevations_loop es t i r = r"
  by (subst findClosestElevations_loop.simps) simp

lemma lower_inv_step:
  assumes "- pi / 2 < es ! i" and "lower_inv es t i r"
  shows "lower_inv es t (Suc i) (findClosestElevations_body t i (es ! i) r)"
  using assms unfolding lower_inv_def body_fields
  by (auto simp: less_Suc_eq)

lemma upper_inv_step:
  assumes "es ! i < pi / 2" and "upper_inv es t i r"
  shows "upper_inv es t (Suc i) (findClosestElevations_body t i (es ! i) r)"
  using assms unfolding upper_inv_def body_fields
  by (auto simp: less_Suc_eq)

lemma loop_inv:
  assumes "\<forall>e\<in>set es. - pi / 2 < e \<and> e < pi / 2"
    and "lower_inv es t i r" and "upper_inv es t i r" and "i \<le> length es"
  shows "lower_inv es t (length es) (findClosestElevations_loop es t i r)
       \<and> upper_inv es t (length es) (findClosestElevations_loop es t i r)"
  using assms
proof (induction es t i r rule: findClosestElevations_loop.induct)
  case (1 es t i r)
  show ?case
  proof (cases "i < length es")
    case True
    then have "- pi / 2 < es ! i" and "es ! i < pi / 2"
      using "1.prems"(1) by auto
    then have "lower_inv es t (Suc i) (findClosestElevations_body t i (es ! i) r)"
      and "upper_inv es t (Suc i) (findClosestElevations_body t i (es ! i) r)"
      using "1.prems" by (simp_all add: lower_inv_step upper_inv_step)
    then show ?thesis
      using "1.IH" [OF True "1.prems"(1)] True
      by (simp add: findClosestElevations_loop_step)
  next
    case False
    then show ?thesis
      using "1.prems" by (simp add: findClosestElevations_loop_stop)
  qed
qed

lemma findClosestElevations_inv:
  assumes "\<forall>e\<in>set es. - pi / 2 < e \<and> e < pi / 2"
  shows "lower_inv es t (length es) (findClosestElevations es t)
       \<and> upper_inv es t (length es) (findClosestElevations es t)"
  unfolding findClosestElevations_def
  by (rule loop_inv [OF assms]) (simp_all add: lower_inv_def upper_inv_def)


lemma lower_inv_final:
  assumes "lower_inv es t (length es) r"
  shows "(elevationIndexLower r = - 1 \<longleftrightarrow> (\<forall>e\<in>set es. t < e))
    \<and> (elevationIndexLower r \<noteq> - 1 \<longrightarrow>
          0 \<le> elevationIndexLower r \<and> elevationIndexLower r < int (length es)
          \<and> elevationAngleLower r = es ! nat (elevationIndexLower r)
          \<and> es ! nat (elevationIndexLower r) \<le> t
          \<and> (\<forall>e\<in>set es. e \<le> t \<longrightarrow> e \<le> es ! nat (elevationIndexLower r)))"
  using assms unfolding lower_inv_def in_set_conv_nth Ball_def
  by (auto simp: not_less)

lemma upper_inv_final:
  assumes "upper_inv es t (length es) r"
  shows "(elevationIndexUpper r = - 1 \<longleftrightarrow> (\<forall>e\<in>set es. e < t))
    \<and> (elevationIndexUpper r \<noteq> - 1 \<longrightarrow>
          0 \<le> elevationIndexUpper r \<and> elevationIndexUpper r < int (length es)
          \<and> elevationAngleUpper r = es ! nat (elevationIndexUpper r)
          \<and> t \<le> es ! nat (elevationIndexUpper r)
          \<and> (\<forall>e\<in>set es. t \<le> e \<longrightarrow> es ! nat (elevationIndexUpper r) \<le> e))"
  using assms unfolding upper_inv_def in_set_conv_nth Ball_def
  by (auto simp: not_less)

text \<open>
  Where the search is right. For every nonempty, strictly ascending elevation list \<open>S\<close>
  whose elements all lie strictly between \<open>- \<pi>/2\<close> and \<open>\<pi>/2\<close> (the two values the search
  starts from), and every target \<open>t\<close>: both returned indices differ from \<open>- 1\<close> exactly when
  \<open>t\<close> lies in \<open>[min S, max S]\<close>; then they are indices of \<open>S\<close>, the returned angles are the
  elements at them, \<open>S[l] \<le> t \<le> S[u]\<close>, and no element of \<open>S\<close> lies strictly between
  \<open>S[l]\<close> and \<open>S[u]\<close>. The lower index is \<open>- 1\<close> exactly when no element is at most \<open>t\<close>,
  the upper index exactly when no element is at least \<open>t\<close>.
\<close>

theorem find_closest_elevations_brackets:
  assumes "S \<noteq> []" and "sorted_wrt (<) S"
    and "\<forall>e\<in>set S. - pi / 2 < e \<and> e < pi / 2"
  shows "let r = findClosestElevations S t;
             l = elevationIndexLower r; u = elevationIndexUpper r
         in ((l \<noteq> - 1 \<and> u \<noteq> - 1) \<longleftrightarrow> (Min (set S) \<le> t \<and> t \<le> Max (set S)))
          \<and> (Min (set S) \<le> t \<and> t \<le> Max (set S) \<longrightarrow>
                0 \<le> l \<and> l < int (length S) \<and> 0 \<le> u \<and> u < int (length S)
                \<and> elevationAngleLower r = S ! nat l \<and> elevationAngleUpper r = S ! nat u
                \<and> S ! nat l \<le> t \<and> t \<le> S ! nat u
                \<and> (\<forall>e\<in>set S. \<not> (S ! nat l < e \<and> e < S ! nat u)))
          \<and> (l = - 1 \<longleftrightarrow> (\<forall>e\<in>set S. t < e))
          \<and> (u = - 1 \<longleftrightarrow> (\<forall>e\<in>set S. e < t))"
proof -
  define r where "r = findClosestElevations S t"
  define l where "l = elevationIndexLower r"
  define u where "u = elevationIndexUpper r"
  have inv: "lower_inv S t (length S) r" "upper_inv S t (length S) r"
    using findClosestElevations_inv [OF assms(3), of t] by (simp_all add: r_def)
  note L = lower_inv_final [OF inv(1), folded l_def]
  note U = upper_inv_final [OF inv(2), folded u_def]
  have fin: "finite (set S)" "set S \<noteq> {}" using assms(1) by simp_all
  have lmin: "l \<noteq> - 1 \<longleftrightarrow> Min (set S) \<le> t"
    using L fin by (auto simp: Min_le_iff not_less)
  have umax: "u \<noteq> - 1 \<longleftrightarrow> t \<le> Max (set S)"
    using U fin by (auto simp: Max_ge_iff not_less)
  have between: "\<forall>e\<in>set S. \<not> (S ! nat l < e \<and> e < S ! nat u)"
    if "l \<noteq> - 1" and "u \<noteq> - 1"
  proof
    fix e assume e: "e \<in> set S"
    show "\<not> (S ! nat l < e \<and> e < S ! nat u)"
    proof (cases "e \<le> t")
      case True
      then have "e \<le> S ! nat l" using L that(1) e by blast
      then show ?thesis by simp
    next
      case False
      then have "t \<le> e" by simp
      then have "S ! nat u \<le> e" using U that(2) e by blast
      then show ?thesis by simp
    qed
  qed
  have "((l \<noteq> - 1 \<and> u \<noteq> - 1) \<longleftrightarrow> (Min (set S) \<le> t \<and> t \<le> Max (set S)))"
    using lmin umax by simp
  moreover have "Min (set S) \<le> t \<and> t \<le> Max (set S) \<longrightarrow>
                0 \<le> l \<and> l < int (length S) \<and> 0 \<le> u \<and> u < int (length S)
                \<and> elevationAngleLower r = S ! nat l \<and> elevationAngleUpper r = S ! nat u
                \<and> S ! nat l \<le> t \<and> t \<le> S ! nat u
                \<and> (\<forall>e\<in>set S. \<not> (S ! nat l < e \<and> e < S ! nat u))"
    using lmin umax L U between by blast
  moreover have "l = - 1 \<longleftrightarrow> (\<forall>e\<in>set S. t < e)" using L by blast
  moreover have "u = - 1 \<longleftrightarrow> (\<forall>e\<in>set S. e < t)" using U by blast
  ultimately show ?thesis
    unfolding Let_def r_def [symmetric] l_def [symmetric] u_def [symmetric] by blast
qed


lemma findClosestElevations_example:
  "findClosestElevations [0, 1 / 4, 1 / 2] (3 / 8) =
     \<lparr>elevationIndexLower = 1, elevationAngleLower = 1 / 4,
      elevationIndexUpper = 2, elevationAngleUpper = 1 / 2\<rparr>"
  using pi_ge_two
  by (simp add: findClosestElevations_def findClosestElevations_loop_step
      findClosestElevations_loop_stop findClosestElevations_body_def)

theorem find_closest_elevations_brackets_witness:
  "[0, 1 / 4, 1 / 2 :: real] \<noteq> [] \<and> sorted_wrt (<) [0, 1 / 4, 1 / 2 :: real]
    \<and> (- pi / 2 < 0 \<and> 0 < pi / 2) \<and> (- pi / 2 < 1 / 4 \<and> 1 / 4 < pi / 2)
    \<and> (- pi / 2 < 1 / 2 \<and> 1 / 2 < pi / 2)
    \<and> Min (set [0, 1 / 4, 1 / 2 :: real]) \<le> 3 / 8 \<and> 3 / 8 \<le> Max (set [0, 1 / 4, 1 / 2 :: real])
    \<and> elevationIndexLower (findClosestElevations [0, 1 / 4, 1 / 2] (3 / 8)) = 1
    \<and> elevationIndexUpper (findClosestElevations [0, 1 / 4, 1 / 2] (3 / 8)) = 2
    \<and> [0, 1 / 4, 1 / 2 :: real] ! 1 \<le> 3 / 8 \<and> 3 / 8 \<le> [0, 1 / 4, 1 / 2 :: real] ! 2"
  using find_closest_elevations_brackets [of "[0, 1 / 4, 1 / 2]" "3 / 8"] pi_ge_two
  by (simp add: findClosestElevations_example)

text \<open>
  Claim C1. For every nonempty, strictly ascending elevation list and every target in
  \<open>[min S, max S]\<close> the search should return two valid indices that bracket the target.
  The code does not when the list holds a vertical scan, the elevation \<open>\<pi>/2\<close>: the upper
  angle starts at \<open>\<pi>/2\<close> and only a strictly smaller element replaces it. For
  \<open>S = [0, \<pi>/2]\<close> and \<open>t = 1/2\<close> the lower index is 0 and the upper index stays \<open>- 1\<close>,
  although \<open>S[1] = \<pi>/2\<close> is the smallest element at least \<open>t\<close>. The lower side does take
  that element: for \<open>S = [\<pi>/2]\<close> and \<open>t = \<pi>/2\<close> the lower index is 0, the upper index
  \<open>- 1\<close>.
\<close>

theorem find_closest_elevations_vertical_scan:
  "[0, pi / 2] \<noteq> [] \<and> sorted_wrt (<) [0, pi / 2]
    \<and> Min (set [0, pi / 2]) \<le> 1 / 2 \<and> 1 / 2 \<le> Max (set [0, pi / 2])
    \<and> elevationIndexLower (findClosestElevations [0, pi / 2] (1 / 2)) = 0
    \<and> elevationIndexUpper (findClosestElevations [0, pi / 2] (1 / 2)) = - 1
    \<and> elevationIndexLower (findClosestElevations [pi / 2] (pi / 2)) = 0
    \<and> elevationIndexUpper (findClosestElevations [pi / 2] (pi / 2)) = - 1"
  using pi_ge_two
  by (simp add: findClosestElevations_def findClosestElevations_loop_step
      findClosestElevations_loop_stop findClosestElevations_body_def)

section \<open>Coordinates: proofs\<close>

text \<open>
  The model of \<^verbatim>\<open>atan2\<close> is the polar angle: away from the origin, \<open>(x, y)\<close> is the point
  at distance \<open>sqrt (x\<^sup>2 + y\<^sup>2)\<close> in the direction \<open>atan2 y x\<close>, an angle of \<open>(- \<pi>, \<pi>]\<close>.
\<close>

lemma polar_arctan:
  assumes "x \<noteq> 0"
  shows "\<bar>x\<bar> * sqrt (1 + (y / x)\<^sup>2) = sqrt (x\<^sup>2 + y\<^sup>2)"
proof -
  have "x\<^sup>2 * (1 + (y / x)\<^sup>2) = x\<^sup>2 + y\<^sup>2"
    using assms by (simp add: field_simps power2_eq_square)
  then have "sqrt (x\<^sup>2 * (1 + (y / x)\<^sup>2)) = sqrt (x\<^sup>2 + y\<^sup>2)" by simp
  then show ?thesis by (simp add: real_sqrt_mult)
qed

lemma atan2_polar:
  assumes "x \<noteq> 0 \<or> y \<noteq> 0"
  shows "sqrt (x\<^sup>2 + y\<^sup>2) * cos (atan2 y x) = x
       \<and> sqrt (x\<^sup>2 + y\<^sup>2) * sin (atan2 y x) = y
       \<and> - pi < atan2 y x \<and> atan2 y x \<le> pi"
proof -
  have pos: "0 < sqrt (1 + (y / x)\<^sup>2)"
    by (intro real_sqrt_gt_zero add_pos_nonneg) auto
  consider (right) "0 < x" | (upper_left) "x < 0" "0 \<le> y" | (lower_left) "x < 0" "y < 0"
    | (up) "x = 0" "0 < y" | (down) "x = 0" "y < 0"
    using assms by linarith
  then show ?thesis
  proof cases
    case right
    have r: "sqrt (x\<^sup>2 + y\<^sup>2) = x * sqrt (1 + (y / x)\<^sup>2)"
      using polar_arctan [of x y] right by simp
    have "- (pi / 2) < arctan (y / x)" and "arctan (y / x) < pi / 2"
      by (rule arctan_lbound, rule arctan_ubound)
    then have "- pi < arctan (y / x)" and "arctan (y / x) \<le> pi"
      using pi_gt_zero by linarith+
    then show ?thesis
      using right pos by (simp add: atan2_def r cos_arctan sin_arctan)
  next
    case upper_left
    have r: "sqrt (x\<^sup>2 + y\<^sup>2) = - x * sqrt (1 + (y / x)\<^sup>2)"
      using polar_arctan [of x y] upper_left by simp
    have "y / x \<le> 0" using upper_left by (simp add: divide_nonneg_neg)
    then have "arctan (y / x) \<le> 0" by (simp add: arctan_le_zero_iff)
    moreover have "- (pi / 2) < arctan (y / x)" by (rule arctan_lbound)
    ultimately have "- pi < arctan (y / x) + pi" and "arctan (y / x) + pi \<le> pi"
      using pi_gt_zero by linarith+
    then show ?thesis
      using upper_left pos by (simp add: atan2_def r cos_arctan sin_arctan)
  next
    case lower_left
    have r: "sqrt (x\<^sup>2 + y\<^sup>2) = - x * sqrt (1 + (y / x)\<^sup>2)"
      using polar_arctan [of x y] lower_left by simp
    have "0 < y / x" using lower_left by (simp add: divide_neg_neg)
    then have "0 < arctan (y / x)" by (simp add: zero_less_arctan_iff)
    moreover have "arctan (y / x) < pi / 2" by (rule arctan_ubound)
    ultimately have "- pi < arctan (y / x) - pi" and "arctan (y / x) - pi \<le> pi"
      using pi_gt_zero by linarith+
    then show ?thesis
      using lower_left pos by (simp add: atan2_def r cos_arctan sin_arctan)
  next
    case up
    then show ?thesis using pi_gt_zero by (simp add: atan2_def)
  next
    case down
    have "- (pi / 2) \<le> pi" using pi_gt_zero by linarith
    then show ?thesis using down by (simp add: atan2_def)
  qed
qed

text \<open>
  Claim C3. For every azimuth and range, \<open>setBinPosition\<close> sets the bin position to
  \<open>p = p0 cos (range / (2 R)) + eE range sin azimuth + eN range cos azimuth\<close> with the
  spherical radius \<open>R = 6371000\<close>, the bin longitude to \<open>atan2 p\<^sub>y p\<^sub>x\<close> and the bin latitude
  to \<open>arcsin (p\<^sub>z / R)\<close>, and leaves the site frame as it was; \<open>origin\<close> sets that frame to
  \<open>p0 = R (cos lon cos lat, sin lon cos lat, sin lat)\<close>, \<open>eE = (- sin lon, cos lon, 0)\<close>,
  \<open>eN = (- cos lon sin lat, - sin lon sin lat, cos lat)\<close>.
\<close>

theorem setBinPosition_position:
  "bin_p (setBinPosition c azimuth range') =
      vadd (vadd (vscale (cos (range' / (2 * 6371000))) (site_p0 c))
                 (vscale (range' * sin azimuth) (site_eE c)))
           (vscale (range' * cos azimuth) (site_eN c))
   \<and> phiBin (setBinPosition c azimuth range') =
        atan2 (p2 (setBinPosition c azimuth range')) (p1 (setBinPosition c azimuth range'))
   \<and> thetaBin (setBinPosition c azimuth range') = arcsin (p3 (setBinPosition c azimuth range') / 6371000)
   \<and> site_p0 (setBinPosition c azimuth range') = site_p0 c
   \<and> site_eE (setBinPosition c azimuth range') = site_eE c
   \<and> site_eN (setBinPosition c azimuth range') = site_eN c
   \<and> site_p0 (origin c theta phi) =
        vscale 6371000 (cos phi * cos theta, sin phi * cos theta, sin theta)
   \<and> site_eE (origin c theta phi) = (- sin phi, cos phi, 0)
   \<and> site_eN (origin c theta phi) = (- cos phi * sin theta, - sin phi * sin theta, cos theta)"
  by (simp add: setBinPosition_def origin_def Let_def bin_p_def site_p0_def site_eE_def
      site_eN_def vscale_def vadd_def EARTH_RADIUS_def mult.commute)

section \<open>Attribute conversion: proofs\<close>

text \<open>
  The model of \<^verbatim>\<open>strcasecmp\<close> returns 0 exactly on strings that agree after
  \<^verbatim>\<open>tolower\<close>.
\<close>

lemma of_char_tolower_zero: "(of_char (tolower c) :: nat) = 0 \<longleftrightarrow> c = NUL"
proof -
  have "(of_char c :: nat) = 0 \<longleftrightarrow> c = NUL"
  proof -
    have "(of_char NUL :: nat) = 0" by (simp add: NUL_def)
    then show ?thesis by (metis of_char_eq_iff)
  qed
  moreover have "of_char (char_of (of_char c + 32 :: nat)) = (of_char c + 32 :: nat)" if "(of_char c :: nat) \<le> 90"
    using that by (simp add: of_char_of)
  ultimately show ?thesis
    by (auto simp: tolower_def)
qed

lemma strcasecmp_zero_iff:
  assumes "NUL \<notin> set a" and "NUL \<notin> set b"
  shows "strcasecmp a b = 0 \<longleftrightarrow> map tolower a = map tolower b"
  using assms
proof (induction a b rule: strcasecmp.induct)
  case 1
  then show ?case by simp
next
  case (2 y ys)
  then show ?case using of_char_tolower_zero [of y] by auto
next
  case (3 x xs)
  then show ?case using of_char_tolower_zero [of x] by auto
next
  case (4 x xs y ys)
  have "int (of_char (tolower x)) - int (of_char (tolower y)) = 0 \<longleftrightarrow> tolower x = tolower y"
    by (metis eq_iff_diff_eq_0 of_char_eq_iff of_nat_eq_iff)
  then show ?case using 4 by (auto simp: Let_def)
qed

lemma TXpower_to_internal_loop_eq:
  "i \<le> nlen \<Longrightarrow> nlen = length darr \<Longrightarrow>
     TXpower_to_internal_loop darr nlen i = take i darr @ map kW_of_dBm (drop i darr)"
proof (induction darr nlen i rule: TXpower_to_internal_loop.induct)
  case (1 darr nlen i)
  show ?case
  proof (cases "i < nlen")
    case True
    let ?d = "darr[i := 10 powr ((darr ! i - 30) / 10) / 1000]"
    have "TXpower_to_internal_loop darr nlen i = TXpower_to_internal_loop ?d nlen (Suc i)"
      using True by (subst TXpower_to_internal_loop.simps) simp
    also have "\<dots> = take (Suc i) ?d @ map kW_of_dBm (drop (Suc i) ?d)"
      using True "1.prems" by (intro "1.IH") auto
    also have "\<dots> = take i darr @ map kW_of_dBm (drop i darr)"
      using True "1.prems"
      by (simp add: take_Suc_conv_app_nth kW_of_dBm_def Cons_nth_drop_Suc [symmetric])
    finally show ?thesis .
  next
    case False
    then show ?thesis
      using "1.prems" by (subst TXpower_to_internal_loop.simps) simp
  qed
qed

lemma TXpower_from_internal_loop_eq:
  "i \<le> nlen \<Longrightarrow> nlen = length darr \<Longrightarrow>
     TXpower_from_internal_loop darr nlen i = take i darr @ map dBm_of_kW (drop i darr)"
proof (induction darr nlen i rule: TXpower_from_internal_loop.induct)
  case (1 darr nlen i)
  show ?case
  proof (cases "i < nlen")
    case True
    let ?d = "if darr ! i > 0 then darr[i := 10 * log 10 (1000 * (darr ! i)) + 30] else darr"
    have len: "length ?d = length darr" by simp
    have "TXpower_from_internal_loop darr nlen i = TXpower_from_internal_loop ?d nlen (Suc i)"
      using True by (subst TXpower_from_internal_loop.simps) simp
    also have "\<dots> = take (Suc i) ?d @ map dBm_of_kW (drop (Suc i) ?d)"
      using True "1.prems" len by (intro "1.IH") auto
    also have "\<dots> = take i darr @ map dBm_of_kW (drop i darr)"
      using True "1.prems"
      by (simp add: take_Suc_conv_app_nth dBm_of_kW_def Cons_nth_drop_Suc [symmetric])
    finally show ?thesis .
  next
    case False
    then show ?thesis
      using "1.prems" by (subst TXpower_from_internal_loop.simps) simp
  qed
qed

lemma power_names_strcasecmp:
  assumes "attrname \<in> {''how/nomTXpower'', ''how/peakpwr'', ''how/avgpwr''}"
  shows "strcasecmp ''how/gasattn'' attrname \<noteq> 0"
    and "strcasecmp ''how/minrange'' attrname \<noteq> 0"
    and "strcasecmp ''how/maxrange'' attrname \<noteq> 0"
    and "strcasecmp ''how/melting_layer_top_A'' attrname \<noteq> 0"
    and "strcasecmp ''how/melting_layer_bottom_A'' attrname \<noteq> 0"
    and "strcasecmp ''how/nomTXpower'' attrname = 0 \<or>
         strcasecmp ''how/peakpwr'' attrname = 0 \<or>
         strcasecmp ''how/avgpwr'' attrname = 0"
  using assms by (auto simp: tolower_def)

lemma TXpower_strcasecmp: "strcasecmp ''how/TXpower'' ''how/TXpower'' = 0"
  by (simp add: tolower_def)

lemma convert_from_Double_power:
  assumes "RaveIO_ODIM_Version_2_4 \<le> outversion"
    and "attrname \<in> {''how/nomTXpower'', ''how/peakpwr'', ''how/avgpwr''}"
  shows "OdimIoUtilities_convertHowAttributeFromInternalRave RaveIO_ODIM_Version_2_4
           attrname outversion (Attr_Double v) = (1, Attr_Double (dBm_of_kW v))"
  using assms(1) power_names_strcasecmp [OF assms(2)]
  by (simp add: OdimIoUtilities_convertHowAttributeFromInternalRave_def Let_def
      RaveAttribute_setDouble_def dBm_of_kW_def)

lemma convert_to_Double_power:
  assumes "RaveIO_ODIM_Version_2_4 \<le> origversion"
    and "attrname \<in> {''how/nomTXpower'', ''how/peakpwr'', ''how/avgpwr''}"
  shows "OdimIoUtilities_convertHowAttributeToInternalRave RaveIO_ODIM_Version_2_4
           attrname origversion (Attr_Double v) = (1, Attr_Double (kW_of_dBm v))"
  using assms(1) power_names_strcasecmp [OF assms(2)]
  by (simp add: OdimIoUtilities_convertHowAttributeToInternalRave_def Let_def
      RaveAttribute_setDouble_def kW_of_dBm_def)

lemma convert_from_TXpower:
  assumes "RaveIO_ODIM_Version_2_4 \<le> outversion"
  shows "OdimIoUtilities_convertHowAttributeFromInternalRave RaveIO_ODIM_Version_2_4
           ''how/TXpower'' outversion (Attr_DoubleArray xs) = (1, Attr_DoubleArray (map dBm_of_kW xs))"
  using assms
  by (simp add: OdimIoUtilities_convertHowAttributeFromInternalRave_def Let_def
      TXpower_strcasecmp TXpower_from_internal_loop_eq)

lemma convert_to_TXpower:
  assumes "RaveIO_ODIM_Version_2_4 \<le> origversion"
  shows "OdimIoUtilities_convertHowAttributeToInternalRave RaveIO_ODIM_Version_2_4
           ''how/TXpower'' origversion (Attr_DoubleArray xs) = (1, Attr_DoubleArray (map kW_of_dBm xs))"
  using assms
  by (simp add: OdimIoUtilities_convertHowAttributeToInternalRave_def Let_def
      TXpower_strcasecmp TXpower_to_internal_loop_eq)

lemma kW_of_dBm_pos: "0 < kW_of_dBm v"
  by (simp add: kW_of_dBm_def)

lemma kW_of_dBm_of_kW: "0 < v \<Longrightarrow> kW_of_dBm (dBm_of_kW v) = v"
  by (simp add: kW_of_dBm_def dBm_of_kW_def)

text \<open>
  Claim C7. On the write path, for an output version of at least ODIM 2.4, the double
  attributes \<open>how/nomTXpower\<close>, \<open>how/peakpwr\<close> and \<open>how/avgpwr\<close> are mapped from \<open>v > 0\<close> kW
  to \<open>10 log\<^sub>1\<^sub>0 (1000 v) + 30\<close> dBm and left unchanged for \<open>v \<le> 0\<close>; the double array
  \<open>how/TXpower\<close> is mapped by the same rule, element by element. The result is 1.
\<close>

theorem write_path_power_to_dBm:
  "(RaveIO_ODIM_Version_2_4 \<le> outversion
      \<and> attrname \<in> {''how/nomTXpower'', ''how/peakpwr'', ''how/avgpwr''}
      \<longrightarrow> OdimIoUtilities_convertHowAttributeFromInternalRave RaveIO_ODIM_Version_2_4
            attrname outversion (Attr_Double v)
          = (1, Attr_Double (if v > 0 then 10 * log 10 (1000 * v) + 30 else v)))
   \<and> (RaveIO_ODIM_Version_2_4 \<le> outversion
      \<longrightarrow> OdimIoUtilities_convertHowAttributeFromInternalRave RaveIO_ODIM_Version_2_4
            ''how/TXpower'' outversion (Attr_DoubleArray xs)
          = (1, Attr_DoubleArray (map (\<lambda>x. if x > 0 then 10 * log 10 (1000 * x) + 30 else x) xs)))"
  using convert_from_Double_power [of RaveIO_ODIM_Version_2_4 outversion attrname v]
    convert_from_TXpower [of RaveIO_ODIM_Version_2_4 outversion xs]
  unfolding dBm_of_kW_def by blast

theorem write_path_power_to_dBm_witness:
  "(4::int) \<le> 4 \<and> ''how/peakpwr'' \<in> {''how/nomTXpower'', ''how/peakpwr'', ''how/avgpwr''}
   \<and> OdimIoUtilities_convertHowAttributeFromInternalRave 4 ''how/peakpwr'' 4 (Attr_Double 1)
       = (1, Attr_Double (10 * log 10 1000 + 30))
   \<and> OdimIoUtilities_convertHowAttributeFromInternalRave 4 ''how/peakpwr'' 4 (Attr_Double (- 1))
       = (1, Attr_Double (- 1))
   \<and> OdimIoUtilities_convertHowAttributeFromInternalRave 4 ''how/TXpower'' 4 (Attr_DoubleArray [1, 0, - 1])
       = (1, Attr_DoubleArray [10 * log 10 1000 + 30, 0, - 1])"
  using write_path_power_to_dBm [of 4 4 "''how/peakpwr''" 1 "[1, 0, - 1]"]
    write_path_power_to_dBm [of 4 4 "''how/peakpwr''" "- 1" "[]"]
  by simp

text \<open>
  Claim C8. For every attribute name and every attribute, when the version is below
  ODIM 2.4 both conversion functions return 1 and leave the attribute as it is.
\<close>

theorem no_conversion_below_2_4:
  assumes "version < RaveIO_ODIM_Version_2_4"
  shows "OdimIoUtilities_convertHowAttributeToInternalRave RaveIO_ODIM_Version_2_4
           attrname version attr = (1, attr)
       \<and> OdimIoUtilities_convertHowAttributeFromInternalRave RaveIO_ODIM_Version_2_4
           attrname version attr = (1, attr)"
  using assms
  by (simp add: OdimIoUtilities_convertHowAttributeToInternalRave_def
      OdimIoUtilities_convertHowAttributeFromInternalRave_def)

theorem no_conversion_below_2_4_witness:
  "(3::int) < 4
   \<and> OdimIoUtilities_convertHowAttributeToInternalRave 4 ''how/peakpwr'' 3 (Attr_Double 60)
       = (1, Attr_Double 60)
   \<and> OdimIoUtilities_convertHowAttributeFromInternalRave 4 ''how/peakpwr'' 3 (Attr_Double 60)
       = (1, Attr_Double 60)"
  using no_conversion_below_2_4 [of 3 4 "''how/peakpwr''" "Attr_Double 60"] by simp

text \<open>
  The read path in exact arithmetic. For an original version of at least ODIM 2.4, every
  double value \<open>v\<close> of \<open>how/nomTXpower\<close>, \<open>how/peakpwr\<close> and \<open>how/avgpwr\<close>, and every element
  of \<open>how/TXpower\<close>, becomes \<open>10\<^bsup>(v - 30) / 10\<^esup> / 1000\<close>, whatever its sign. The real
  functions \<open>v \<mapsto> 10 log\<^sub>1\<^sub>0 (1000 v) + 30\<close> and \<open>w \<mapsto> 10\<^bsup>(w - 30) / 10\<^esup> / 1000\<close> are inverse to
  each other for \<open>v > 0\<close>, and a value \<open>v \<le> 0\<close>, which the write path leaves as it is, is read
  back as the positive number \<open>10\<^bsup>(v - 30) / 10\<^esup> / 1000\<close>. The C functions
  \<^verbatim>\<open>log10\<close> and \<^verbatim>\<open>pow\<close> round their results, so what the program returns for \<open>v > 0\<close> is
  \<open>v\<close> up to rounding only; the equations for \<open>v > 0\<close> below are about the real functions.
\<close>

theorem power_round_trip_exact_arithmetic:
  "(RaveIO_ODIM_Version_2_4 \<le> origversion
      \<and> attrname \<in> {''how/nomTXpower'', ''how/peakpwr'', ''how/avgpwr''}
      \<longrightarrow> OdimIoUtilities_convertHowAttributeToInternalRave RaveIO_ODIM_Version_2_4
            attrname origversion (Attr_Double v)
          = (1, Attr_Double (10 powr ((v - 30) / 10) / 1000)))
   \<and> (RaveIO_ODIM_Version_2_4 \<le> origversion
      \<longrightarrow> OdimIoUtilities_convertHowAttributeToInternalRave RaveIO_ODIM_Version_2_4
            ''how/TXpower'' origversion (Attr_DoubleArray xs)
          = (1, Attr_DoubleArray (map (\<lambda>x. 10 powr ((x - 30) / 10) / 1000) xs)))
   \<and> (RaveIO_ODIM_Version_2_4 \<le> origversion \<and> RaveIO_ODIM_Version_2_4 \<le> outversion
      \<and> attrname \<in> {''how/nomTXpower'', ''how/peakpwr'', ''how/avgpwr''}
      \<longrightarrow> snd (OdimIoUtilities_convertHowAttributeToInternalRave RaveIO_ODIM_Version_2_4
                 attrname origversion
                 (snd (OdimIoUtilities_convertHowAttributeFromInternalRave RaveIO_ODIM_Version_2_4
                        attrname outversion (Attr_Double v))))
          = Attr_Double (if v > 0 then v else 10 powr ((v - 30) / 10) / 1000)
        \<and> (v \<le> 0 \<longrightarrow> 10 powr ((v - 30) / 10) / 1000 \<noteq> v))
   \<and> (RaveIO_ODIM_Version_2_4 \<le> origversion \<and> RaveIO_ODIM_Version_2_4 \<le> outversion
      \<longrightarrow> snd (OdimIoUtilities_convertHowAttributeToInternalRave RaveIO_ODIM_Version_2_4
                 ''how/TXpower'' origversion
                 (snd (OdimIoUtilities_convertHowAttributeFromInternalRave RaveIO_ODIM_Version_2_4
                        ''how/TXpower'' outversion (Attr_DoubleArray xs))))
          = Attr_DoubleArray
              (map (\<lambda>x. if x > 0 then x else 10 powr ((x - 30) / 10) / 1000) xs))"
proof (intro conjI impI)
  assume "RaveIO_ODIM_Version_2_4 \<le> origversion
      \<and> attrname \<in> {''how/nomTXpower'', ''how/peakpwr'', ''how/avgpwr''}"
  then show "OdimIoUtilities_convertHowAttributeToInternalRave RaveIO_ODIM_Version_2_4
            attrname origversion (Attr_Double v)
          = (1, Attr_Double (10 powr ((v - 30) / 10) / 1000))"
    using convert_to_Double_power [of RaveIO_ODIM_Version_2_4 origversion attrname v]
    unfolding kW_of_dBm_def by simp
next
  assume "RaveIO_ODIM_Version_2_4 \<le> origversion"
  then show "OdimIoUtilities_convertHowAttributeToInternalRave RaveIO_ODIM_Version_2_4
            ''how/TXpower'' origversion (Attr_DoubleArray xs)
          = (1, Attr_DoubleArray (map (\<lambda>x. 10 powr ((x - 30) / 10) / 1000) xs))"
    using convert_to_TXpower [of RaveIO_ODIM_Version_2_4 origversion xs]
    unfolding kW_of_dBm_def by simp
next
  assume a: "RaveIO_ODIM_Version_2_4 \<le> origversion \<and> RaveIO_ODIM_Version_2_4 \<le> outversion
      \<and> attrname \<in> {''how/nomTXpower'', ''how/peakpwr'', ''how/avgpwr''}"
  have "snd (OdimIoUtilities_convertHowAttributeToInternalRave RaveIO_ODIM_Version_2_4
                 attrname origversion
                 (snd (OdimIoUtilities_convertHowAttributeFromInternalRave RaveIO_ODIM_Version_2_4
                        attrname outversion (Attr_Double v))))
        = Attr_Double (kW_of_dBm (dBm_of_kW v))"
    using a by (simp add: convert_from_Double_power convert_to_Double_power)
  also have "kW_of_dBm (dBm_of_kW v) = (if v > 0 then v else 10 powr ((v - 30) / 10) / 1000)"
  proof (cases "v > 0")
    case True
    then show ?thesis by (simp add: kW_of_dBm_of_kW)
  next
    case False
    then show ?thesis by (simp add: dBm_of_kW_def kW_of_dBm_def)
  qed
  finally show "snd (OdimIoUtilities_convertHowAttributeToInternalRave RaveIO_ODIM_Version_2_4
                 attrname origversion
                 (snd (OdimIoUtilities_convertHowAttributeFromInternalRave RaveIO_ODIM_Version_2_4
                        attrname outversion (Attr_Double v))))
          = Attr_Double (if v > 0 then v else 10 powr ((v - 30) / 10) / 1000)" .
next
  assume "v \<le> 0"
  moreover have "0 < 10 powr ((v - 30) / 10) / 1000" by simp
  ultimately show "10 powr ((v - 30) / 10) / 1000 \<noteq> v" by linarith
next
  assume a: "RaveIO_ODIM_Version_2_4 \<le> origversion \<and> RaveIO_ODIM_Version_2_4 \<le> outversion"
  have "snd (OdimIoUtilities_convertHowAttributeToInternalRave RaveIO_ODIM_Version_2_4
                 ''how/TXpower'' origversion
                 (snd (OdimIoUtilities_convertHowAttributeFromInternalRave RaveIO_ODIM_Version_2_4
                        ''how/TXpower'' outversion (Attr_DoubleArray xs))))
        = Attr_DoubleArray (map (\<lambda>x. kW_of_dBm (dBm_of_kW x)) xs)"
    using a by (simp add: convert_from_TXpower convert_to_TXpower comp_def)
  also have "map (\<lambda>x. kW_of_dBm (dBm_of_kW x)) xs
        = map (\<lambda>x. if x > 0 then x else 10 powr ((x - 30) / 10) / 1000) xs"
    by (rule map_cong) (auto simp: kW_of_dBm_of_kW, simp add: dBm_of_kW_def kW_of_dBm_def)
  finally show "snd (OdimIoUtilities_convertHowAttributeToInternalRave RaveIO_ODIM_Version_2_4
                 ''how/TXpower'' origversion
                 (snd (OdimIoUtilities_convertHowAttributeFromInternalRave RaveIO_ODIM_Version_2_4
                        ''how/TXpower'' outversion (Attr_DoubleArray xs))))
          = Attr_DoubleArray
              (map (\<lambda>x. if x > 0 then x else 10 powr ((x - 30) / 10) / 1000) xs)" .
qed

theorem power_round_trip_exact_arithmetic_instance:
  "(4::int) \<le> 4 \<and> ''how/avgpwr'' \<in> {''how/nomTXpower'', ''how/peakpwr'', ''how/avgpwr''}
   \<and> OdimIoUtilities_convertHowAttributeToInternalRave 4 ''how/avgpwr'' 4 (Attr_Double 0)
       = (1, Attr_Double (10 powr (- 3) / 1000))
   \<and> OdimIoUtilities_convertHowAttributeToInternalRave 4 ''how/TXpower'' 4 (Attr_DoubleArray [0, 30])
       = (1, Attr_DoubleArray [10 powr (- 3) / 1000, 10 powr 0 / 1000])
   \<and> snd (OdimIoUtilities_convertHowAttributeToInternalRave 4 ''how/avgpwr'' 4
            (snd (OdimIoUtilities_convertHowAttributeFromInternalRave 4 ''how/avgpwr'' 4 (Attr_Double 0))))
       = Attr_Double (10 powr (- 3) / 1000)
   \<and> (0::real) \<le> 0 \<and> 10 powr ((0 - 30) / 10) / 1000 \<noteq> (0::real)
   \<and> snd (OdimIoUtilities_convertHowAttributeToInternalRave 4 ''how/TXpower'' 4
            (snd (OdimIoUtilities_convertHowAttributeFromInternalRave 4 ''how/TXpower'' 4
                   (Attr_DoubleArray [0, 30]))))
       = Attr_DoubleArray [10 powr (- 3) / 1000, 30]"
  using power_round_trip_exact_arithmetic [of 4 4 "''how/avgpwr''" 0 "[0, 30]" 4]
  by simp

text \<open>
  What does not rest on the two transforms being inverse: the read path has no guard, so
  a value \<open>v \<le> 0\<close>, which the write path leaves as it is, is read back as
  \<open>10\<^bsup>(v - 30) / 10\<^esup> / 1000\<close>, a positive number and so not \<open>v\<close>.
\<close>

lemma read_path_power_from_dBm:
  "(RaveIO_ODIM_Version_2_4 \<le> origversion
      \<and> attrname \<in> {''how/nomTXpower'', ''how/peakpwr'', ''how/avgpwr''}
      \<longrightarrow> OdimIoUtilities_convertHowAttributeToInternalRave RaveIO_ODIM_Version_2_4
            attrname origversion (Attr_Double v)
          = (1, Attr_Double (10 powr ((v - 30) / 10) / 1000)))
   \<and> (RaveIO_ODIM_Version_2_4 \<le> origversion
      \<longrightarrow> OdimIoUtilities_convertHowAttributeToInternalRave RaveIO_ODIM_Version_2_4
            ''how/TXpower'' origversion (Attr_DoubleArray xs)
          = (1, Attr_DoubleArray (map (\<lambda>x. 10 powr ((x - 30) / 10) / 1000) xs)))
   \<and> (RaveIO_ODIM_Version_2_4 \<le> origversion \<and> RaveIO_ODIM_Version_2_4 \<le> outversion
      \<and> attrname \<in> {''how/nomTXpower'', ''how/peakpwr'', ''how/avgpwr''} \<and> v \<le> 0
      \<longrightarrow> snd (OdimIoUtilities_convertHowAttributeToInternalRave RaveIO_ODIM_Version_2_4
                 attrname origversion
                 (snd (OdimIoUtilities_convertHowAttributeFromInternalRave RaveIO_ODIM_Version_2_4
                        attrname outversion (Attr_Double v))))
          = Attr_Double (10 powr ((v - 30) / 10) / 1000)
        \<and> 10 powr ((v - 30) / 10) / 1000 \<noteq> v)"
  using power_round_trip_exact_arithmetic
    [of RaveIO_ODIM_Version_2_4 origversion attrname v xs outversion]
  by auto

section \<open>Source identifiers: proofs\<close>

lemma strstr_None_iff: "strstr s k = None \<longleftrightarrow> \<not> sublist k s"
proof (induction s)
  case Nil
  then show ?case by auto
next
  case (Cons c cs)
  then show ?case by (auto simp: sublist_Cons_right)
qed

lemma strstr_first:
  assumes "\<forall>i<length pre. \<not> prefix k (drop i (pre @ k @ t))"
  shows "strstr (pre @ k @ t) k = Some (k @ t)"
  using assms
proof (induction pre)
  case Nil
  have "prefix k (k @ t)" by simp
  then show ?case by (cases "k @ t") auto
next
  case (Cons c pre)
  have "\<not> prefix k (c # pre @ k @ t)"
    using Cons.prems [rule_format, of 0] by simp
  moreover have "\<forall>i<length pre. \<not> prefix k (drop i (pre @ k @ t))"
    using Cons.prems by (metis Suc_less_eq append_Cons drop_Suc_Cons length_Cons)
  ultimately show ?case using Cons.IH by simp
qed

lemma strpbrk_comma:
  "strpbrk s '','' = (if CHR '','' \<in> set s then Some (dropWhile (\<lambda>c. c \<noteq> CHR '','') s) else None)"
  by (induction s) auto

lemma comma_span_length:
  "(case strpbrk p '','' of None \<Rightarrow> length p | Some q \<Rightarrow> length p - length q)
     = length (takeWhile (\<lambda>c. c \<noteq> CHR '','') p)"
proof -
  have "length p = length (takeWhile (\<lambda>c. c \<noteq> CHR '','') p) + length (dropWhile (\<lambda>c. c \<noteq> CHR '','') p)"
    by (metis length_append takeWhile_dropWhile_id)
  moreover have "CHR '','' \<notin> set p \<Longrightarrow> takeWhile (\<lambda>c. c \<noteq> CHR '','') p = p"
    by (induction p) auto
  ultimately show ?thesis by (simp add: strpbrk_comma)
qed

lemma takeWhile_value:
  assumes "CHR '','' \<notin> set v" and "rest = [] \<or> hd rest = CHR '',''"
  shows "takeWhile (\<lambda>c. c \<noteq> CHR '','') (v @ rest) = v"
proof -
  have "takeWhile (\<lambda>c. c \<noteq> CHR '','') rest = []"
    using assms(2) by (cases rest) auto
  then show ?thesis
    using assms(1) by (induction v) auto
qed

lemma getIdFromSource_found:
  assumes "strstr src key = Some p0"
  shows "OdimIoUtilities_getIdFromSource (Some src) (Some key) buf buflen =
     (let p = drop (length key) p0; len = length (takeWhile (\<lambda>c. c \<noteq> CHR '','') p)
      in if len + 1 < buflen then (1, (strncpy buf p len)[len := NUL]) else (0, buf))"
  using assms by (simp add: OdimIoUtilities_getIdFromSource_def Let_def comma_span_length)

lemma strncpy_terminated:
  assumes "length v < length buf"
  shows "(strncpy buf (v @ rest) (length v))[length v := NUL] = v @ NUL # drop (length v + 1) buf"
proof -
  have "strncpy buf (v @ rest) (length v) = v @ drop (length v) buf"
    by (simp add: strncpy_def)
  moreover have "drop (length v) buf = buf ! length v # drop (length v + 1) buf"
    using assms by (simp add: Cons_nth_drop_Suc)
  ultimately show ?thesis by (simp add: list_update_append)
qed

lemma getIdFromSource_decomposed:
  assumes first: "\<forall>i<length pre. \<not> prefix key (drop i (pre @ key @ v @ rest))"
    and v: "CHR '','' \<notin> set v" and rest: "rest = [] \<or> hd rest = CHR '',''"
    and buf: "buflen \<le> length buf"
  shows "OdimIoUtilities_getIdFromSource (Some (pre @ key @ v @ rest)) (Some key) buf buflen =
     (if length v + 1 < buflen then (1, v @ NUL # drop (length v + 1) buf) else (0, buf))"
proof -
  have "strstr (pre @ key @ v @ rest) key = Some (key @ v @ rest)"
    using first by (rule strstr_first)
  then show ?thesis
    using buf by (simp add: getIdFromSource_found Let_def takeWhile_value [OF v rest] strncpy_terminated)
qed

lemma getIdFromSource_absent:
  assumes "\<not> sublist key src"
  shows "OdimIoUtilities_getIdFromSource (Some src) (Some key) buf buflen = (0, buf)"
  using assms by (simp add: OdimIoUtilities_getIdFromSource_def strstr_None_iff [symmetric])


lemma getNodOrCmtFromSource_unfold:
  "OdimIoUtilities_getNodOrCmtFromSource source buf buflen =
     (if fst (OdimIoUtilities_getIdFromSource source (Some ''NOD:'') buf buflen) = 0
      then OdimIoUtilities_getIdFromSource source (Some ''CMT:'')
             (snd (OdimIoUtilities_getIdFromSource source (Some ''NOD:'') buf buflen)) buflen
      else OdimIoUtilities_getIdFromSource source (Some ''NOD:'') buf buflen)"
  by (simp add: OdimIoUtilities_getNodOrCmtFromSource_def split_beta)

lemma example_first_NOD:
  "\<forall>i<length ''WMO:02954,''. \<not> prefix ''NOD:'' (drop i (''WMO:02954,'' @ ''NOD:'' @ ''sekir'' @ '',CMT:Kiruna''))"
  by (simp add: All_less_Suc)

lemma example_no_PLC: "\<not> sublist ''PLC:'' ''WMO:02954,NOD:sekir,CMT:Kiruna''"
  by (simp add: sublist_Cons_right)

text \<open>
  Claim C6, as amended. Let the caller's buffer be at least two bytes longer than the
  value (value length + 1 < \<^verbatim>\<open>buflen\<close>). For the source
  \<open>WMO:02954,NOD:sekir,CMT:Kiruna\<close> and the key \<open>NOD:\<close>, \<open>getIdFromSource\<close> returns 1 and
  the buffer starts with \<open>sekir\<close> and a NUL. In general, when the key first occurs after
  the prefix \<open>pre\<close> and is followed by \<open>v\<close>, which has no comma and ends at a comma or at
  the end of the source, the result is 1 and the buffer starts with \<open>v\<close> and a NUL. When
  the key does not occur (the key \<open>PLC:\<close> in the example), the result is 0 and the buffer
  is as it was, whatever its size. \<open>getNodOrCmtFromSource\<close> gives the value of \<open>NOD:\<close>
  when that key occurs and the buffer is at least two bytes longer than its value; when
  \<open>NOD:\<close> does not occur, or its value is too long for the buffer, it is
  \<open>getIdFromSource\<close> for the key \<open>CMT:\<close>.
\<close>

theorem source_identifier_parsing:
  "(6 < buflen \<and> buflen \<le> length buf \<longrightarrow>
      OdimIoUtilities_getIdFromSource (Some ''WMO:02954,NOD:sekir,CMT:Kiruna'') (Some ''NOD:'') buf buflen
        = (1, ''sekir'' @ NUL # drop 6 buf))
   \<and> OdimIoUtilities_getIdFromSource (Some ''WMO:02954,NOD:sekir,CMT:Kiruna'') (Some ''PLC:'') buf buflen
        = (0, buf)
   \<and> ((\<forall>i<length pre. \<not> prefix key (drop i (pre @ key @ v @ rest)))
        \<and> CHR '','' \<notin> set v \<and> (rest = [] \<or> hd rest = CHR '','')
        \<and> length v + 1 < buflen \<and> buflen \<le> length buf \<longrightarrow>
      OdimIoUtilities_getIdFromSource (Some (pre @ key @ v @ rest)) (Some key) buf buflen
        = (1, v @ NUL # drop (length v + 1) buf))
   \<and> (\<not> sublist key src \<longrightarrow>
      OdimIoUtilities_getIdFromSource (Some src) (Some key) buf buflen = (0, buf))
   \<and> ((\<forall>i<length pre. \<not> prefix ''NOD:'' (drop i (pre @ ''NOD:'' @ v @ rest)))
        \<and> CHR '','' \<notin> set v \<and> (rest = [] \<or> hd rest = CHR '','')
        \<and> length v + 1 < buflen \<and> buflen \<le> length buf \<longrightarrow>
      OdimIoUtilities_getNodOrCmtFromSource (Some (pre @ ''NOD:'' @ v @ rest)) buf buflen
        = (1, v @ NUL # drop (length v + 1) buf))
   \<and> (\<not> sublist ''NOD:'' src \<longrightarrow>
      OdimIoUtilities_getNodOrCmtFromSource (Some src) buf buflen
        = OdimIoUtilities_getIdFromSource (Some src) (Some ''CMT:'') buf buflen)
   \<and> ((\<forall>i<length pre. \<not> prefix ''NOD:'' (drop i (pre @ ''NOD:'' @ v @ rest)))
        \<and> CHR '','' \<notin> set v \<and> (rest = [] \<or> hd rest = CHR '','')
        \<and> buflen \<le> length v + 1 \<and> buflen \<le> length buf \<longrightarrow>
      OdimIoUtilities_getNodOrCmtFromSource (Some (pre @ ''NOD:'' @ v @ rest)) buf buflen
        = OdimIoUtilities_getIdFromSource (Some (pre @ ''NOD:'' @ v @ rest)) (Some ''CMT:'')
            buf buflen)"
proof (intro conjI impI)
  assume "6 < buflen \<and> buflen \<le> length buf"
  then show "OdimIoUtilities_getIdFromSource (Some ''WMO:02954,NOD:sekir,CMT:Kiruna'') (Some ''NOD:'') buf buflen
        = (1, ''sekir'' @ NUL # drop 6 buf)"
    using getIdFromSource_decomposed [OF example_first_NOD, of buflen buf]
    by (simp add: eval_nat_numeral)
next
  show "OdimIoUtilities_getIdFromSource (Some ''WMO:02954,NOD:sekir,CMT:Kiruna'') (Some ''PLC:'') buf buflen
        = (0, buf)"
    using example_no_PLC by (rule getIdFromSource_absent)
next
  assume "(\<forall>i<length pre. \<not> prefix key (drop i (pre @ key @ v @ rest)))
        \<and> CHR '','' \<notin> set v \<and> (rest = [] \<or> hd rest = CHR '','')
        \<and> length v + 1 < buflen \<and> buflen \<le> length buf"
  then show "OdimIoUtilities_getIdFromSource (Some (pre @ key @ v @ rest)) (Some key) buf buflen
        = (1, v @ NUL # drop (length v + 1) buf)"
    by (simp add: getIdFromSource_decomposed)
next
  assume "\<not> sublist key src"
  then show "OdimIoUtilities_getIdFromSource (Some src) (Some key) buf buflen = (0, buf)"
    by (rule getIdFromSource_absent)
next
  assume "(\<forall>i<length pre. \<not> prefix ''NOD:'' (drop i (pre @ ''NOD:'' @ v @ rest)))
        \<and> CHR '','' \<notin> set v \<and> (rest = [] \<or> hd rest = CHR '','')
        \<and> length v + 1 < buflen \<and> buflen \<le> length buf"
  then have "OdimIoUtilities_getIdFromSource (Some (pre @ ''NOD:'' @ v @ rest)) (Some ''NOD:'') buf buflen
        = (1, v @ NUL # drop (length v + 1) buf)"
    using getIdFromSource_decomposed [of pre "''NOD:''" v rest buflen buf] by simp
  then show "OdimIoUtilities_getNodOrCmtFromSource (Some (pre @ ''NOD:'' @ v @ rest)) buf buflen
        = (1, v @ NUL # drop (length v + 1) buf)"
    by (simp add: getNodOrCmtFromSource_unfold)
next
  assume "\<not> sublist ''NOD:'' src"
  then have "OdimIoUtilities_getIdFromSource (Some src) (Some ''NOD:'') buf buflen = (0, buf)"
    by (rule getIdFromSource_absent)
  then show "OdimIoUtilities_getNodOrCmtFromSource (Some src) buf buflen
        = OdimIoUtilities_getIdFromSource (Some src) (Some ''CMT:'') buf buflen"
    by (simp add: getNodOrCmtFromSource_unfold)
next
  assume "(\<forall>i<length pre. \<not> prefix ''NOD:'' (drop i (pre @ ''NOD:'' @ v @ rest)))
        \<and> CHR '','' \<notin> set v \<and> (rest = [] \<or> hd rest = CHR '','')
        \<and> buflen \<le> length v + 1 \<and> buflen \<le> length buf"
  then have "OdimIoUtilities_getIdFromSource (Some (pre @ ''NOD:'' @ v @ rest)) (Some ''NOD:'') buf buflen
        = (0, buf)"
    using getIdFromSource_decomposed [of pre "''NOD:''" v rest buflen buf] by simp
  then show "OdimIoUtilities_getNodOrCmtFromSource (Some (pre @ ''NOD:'' @ v @ rest)) buf buflen
        = OdimIoUtilities_getIdFromSource (Some (pre @ ''NOD:'' @ v @ rest)) (Some ''CMT:'')
            buf buflen"
    by (simp add: getNodOrCmtFromSource_unfold)
qed

lemma example_no_NOD: "\<not> sublist ''NOD:'' ''WMO:02954,CMT:Kiruna''"
  by (simp add: sublist_Cons_right)

lemma example_CMT:
  "OdimIoUtilities_getIdFromSource (Some ''WMO:02954,CMT:Kiruna'') (Some ''CMT:'') ''########'' 8
     = (1, ''Kiruna'' @ NUL # ''#'')"
  by (simp add: OdimIoUtilities_getIdFromSource_def strncpy_def)

lemma example_CMT_short:
  "OdimIoUtilities_getIdFromSource (Some ''NOD:verylongname,CMT:ab'') (Some ''CMT:'') ''####'' 4
     = (1, ''ab'' @ NUL # ''#'')"
  by (simp add: OdimIoUtilities_getIdFromSource_def strncpy_def)

theorem source_identifier_parsing_witness:
  "(6::nat) < 8 \<and> (8::nat) \<le> length ''########''
   \<and> OdimIoUtilities_getIdFromSource (Some ''WMO:02954,NOD:sekir,CMT:Kiruna'') (Some ''NOD:'') ''########'' 8
        = (1, ''sekir'' @ NUL # ''##'')
   \<and> OdimIoUtilities_getIdFromSource (Some ''WMO:02954,NOD:sekir,CMT:Kiruna'') (Some ''PLC:'') ''########'' 8
        = (0, ''########'')
   \<and> CHR '','' \<notin> set ''sekir''
   \<and> OdimIoUtilities_getNodOrCmtFromSource (Some ''WMO:02954,NOD:sekir,CMT:Kiruna'') ''########'' 8
        = (1, ''sekir'' @ NUL # ''##'')
   \<and> \<not> sublist ''NOD:'' ''WMO:02954,CMT:Kiruna''
   \<and> OdimIoUtilities_getNodOrCmtFromSource (Some ''WMO:02954,CMT:Kiruna'') ''########'' 8
        = (1, ''Kiruna'' @ NUL # ''#'')
   \<and> CHR '','' \<notin> set ''verylongname'' \<and> (4::nat) \<le> length ''verylongname'' + 1
   \<and> (4::nat) \<le> length ''####''
   \<and> OdimIoUtilities_getNodOrCmtFromSource (Some ''NOD:verylongname,CMT:ab'') ''####'' 4
        = (1, ''ab'' @ NUL # ''#'')"
  using source_identifier_parsing [of 8 "''########''" "''WMO:02954,''" "''NOD:''" "''sekir''"
      "'',CMT:Kiruna''" "''WMO:02954,CMT:Kiruna''"]
    source_identifier_parsing [of 4 "''####''" "[]" "''NOD:''" "''verylongname''"
      "'',CMT:ab''" "''WMO:02954,CMT:Kiruna''"]
    example_first_NOD example_no_NOD
  by (simp add: example_CMT example_CMT_short)

text \<open>
  The claim as stated, without a condition on the buffer, fails. A buffer of 6 bytes
  holds \<open>sekir\<close> and its NUL, yet \<open>getIdFromSource\<close> returns 0 and leaves the buffer as it
  was; and with \<open>NOD:\<close> present but its value too long for a buffer of 4 bytes,
  \<open>getNodOrCmtFromSource\<close> returns the value of \<open>CMT:\<close>.
\<close>

theorem source_identifier_parsing_counterexample:
  "length ''sekir'' + 1 \<le> length ''######''
   \<and> OdimIoUtilities_getIdFromSource (Some ''WMO:02954,NOD:sekir,CMT:Kiruna'') (Some ''NOD:'')
        ''######'' 6 = (0, ''######'')
   \<and> OdimIoUtilities_getNodOrCmtFromSource (Some ''NOD:verylongname,CMT:ab'') ''####'' 4
        = (1, ''ab'' @ NUL # ''#'')"
  by (simp add: getNodOrCmtFromSource_unfold OdimIoUtilities_getIdFromSource_def strncpy_def)

lemma getIdFromSource_success_only:
  assumes "fst (OdimIoUtilities_getIdFromSource source id' buf buflen) \<noteq> 0"
  shows "\<exists>src key p. source = Some src \<and> id' = Some key \<and> strstr src key = Some p
           \<and> length (takeWhile (\<lambda>c. c \<noteq> CHR '','') (drop (length key) p)) + 2 \<le> buflen"
proof -
  obtain src where src: "source = Some src"
    using assms by (cases source) (auto simp: OdimIoUtilities_getIdFromSource_def)
  obtain key where key: "id' = Some key"
    using assms src by (cases id') (auto simp: OdimIoUtilities_getIdFromSource_def)
  obtain p where p: "strstr src key = Some p"
    using assms src key by (cases "strstr src key") (auto simp: OdimIoUtilities_getIdFromSource_def)
  have "length (takeWhile (\<lambda>c. c \<noteq> CHR '','') (drop (length key) p)) + 1 < buflen"
    using assms unfolding src key getIdFromSource_found [OF p] Let_def
    by (auto split: if_splits)
  then show ?thesis using src key p by auto
qed

text \<open>
  Claim C10. \<open>getIdFromSource\<close> returns a result other than 0 only when the key was
  found and \<^verbatim>\<open>buflen\<close> is at least the length of the value plus two: the check is
  \<open>len + 1 < buflen\<close>. When the key is found, the result is 1 exactly when
  \<open>length v + 2 \<le> buflen\<close>, and a buffer of exactly \<open>length v + 1\<close> bytes, which would hold
  the value and its NUL, is refused: the result is 0 and the buffer is not written.
\<close>

theorem getIdFromSource_needs_two_spare_bytes:
  "(fst (OdimIoUtilities_getIdFromSource source id' buf buflen) \<noteq> 0 \<longrightarrow>
      fst (OdimIoUtilities_getIdFromSource source id' buf buflen) = 1
      \<and> (\<exists>src key p. source = Some src \<and> id' = Some key \<and> strstr src key = Some p
           \<and> length (takeWhile (\<lambda>c. c \<noteq> CHR '','') (drop (length key) p)) + 2 \<le> buflen))
   \<and> ((\<forall>i<length pre. \<not> prefix key (drop i (pre @ key @ v @ rest)))
        \<and> CHR '','' \<notin> set v \<and> (rest = [] \<or> hd rest = CHR '','') \<and> buflen \<le> length buf \<longrightarrow>
      (fst (OdimIoUtilities_getIdFromSource (Some (pre @ key @ v @ rest)) (Some key) buf buflen) = 1
         \<longleftrightarrow> length v + 2 \<le> buflen)
      \<and> (buflen = length v + 1 \<longrightarrow>
           OdimIoUtilities_getIdFromSource (Some (pre @ key @ v @ rest)) (Some key) buf buflen
             = (0, buf)))"
proof (intro conjI impI)
  assume a: "fst (OdimIoUtilities_getIdFromSource source id' buf buflen) \<noteq> 0"
  show "fst (OdimIoUtilities_getIdFromSource source id' buf buflen) = 1"
    using a by (auto simp: OdimIoUtilities_getIdFromSource_def Let_def split: option.splits if_splits)
  show "\<exists>src key p. source = Some src \<and> id' = Some key \<and> strstr src key = Some p
           \<and> length (takeWhile (\<lambda>c. c \<noteq> CHR '','') (drop (length key) p)) + 2 \<le> buflen"
    using a by (rule getIdFromSource_success_only)
next
  assume a: "(\<forall>i<length pre. \<not> prefix key (drop i (pre @ key @ v @ rest)))
        \<and> CHR '','' \<notin> set v \<and> (rest = [] \<or> hd rest = CHR '','') \<and> buflen \<le> length buf"
  then show "fst (OdimIoUtilities_getIdFromSource (Some (pre @ key @ v @ rest)) (Some key) buf buflen) = 1
         \<longleftrightarrow> length v + 2 \<le> buflen"
    by (auto simp: getIdFromSource_decomposed)
  assume "buflen = length v + 1"
  then show "OdimIoUtilities_getIdFromSource (Some (pre @ key @ v @ rest)) (Some key) buf buflen
             = (0, buf)"
    using a by (simp add: getIdFromSource_decomposed)
qed

theorem getIdFromSource_needs_two_spare_bytes_witness:
  "CHR '','' \<notin> set ''sekir'' \<and> (6::nat) \<le> length ''######'' \<and> (6::nat) = length ''sekir'' + 1
   \<and> OdimIoUtilities_getIdFromSource (Some ''WMO:02954,NOD:sekir,CMT:Kiruna'') (Some ''NOD:'') ''######'' 6
        = (0, ''######'')
   \<and> fst (OdimIoUtilities_getIdFromSource (Some ''WMO:02954,NOD:sekir,CMT:Kiruna'') (Some ''NOD:'') ''######'' 6) \<noteq> 1
   \<and> fst (OdimIoUtilities_getIdFromSource (Some ''WMO:02954,NOD:sekir,CMT:Kiruna'') (Some ''NOD:'') ''#######'' 7) = 1
   \<and> length ''sekir'' + 2 \<le> (7::nat)"
  using getIdFromSource_needs_two_spare_bytes [of "Some ''WMO:02954,NOD:sekir,CMT:Kiruna''"
      "Some ''NOD:''" "''#######''" 7 "''WMO:02954,''" "''NOD:''" "''sekir''" "'',CMT:Kiruna''"]
    getIdFromSource_needs_two_spare_bytes [of "Some ''WMO:02954,NOD:sekir,CMT:Kiruna''"
      "Some ''NOD:''" "''######''" 6 "''WMO:02954,''" "''NOD:''" "''sekir''" "'',CMT:Kiruna''"]
    example_first_NOD
  by simp

end
